theory Spec2Isabelle
  imports Complex_Main "HOL-Library.Log_Nat"
begin

section \<open>JavaScript numbers\<close>

text \<open>
  The animation modules compute with JavaScript numbers, which are IEEE 754 doubles. The
  model keeps the two kinds of value the code paths below can tell apart: a finite
  number, taken as a real, and \<^verbatim>\<open>NaN\<close>, which every arithmetic operation propagates
  and which is unequal to itself under \<^verbatim>\<open>===\<close>. Infinite values are not modelled: a
  result beyond the range of doubles stays a number.

  Where the code turns a computed number into an integer (\<^verbatim>\<open>Math.floor\<close>,
  \<^verbatim>\<open>| 0\<close>), the rounding of the operations before decides which integer it is, so
  these operations are rounded to the nearest double as the machine does
  (\<open>round_double\<close>). Everywhere else the arithmetic is exact; the rounding of
  \<^verbatim>\<open>Float32Array\<close> cells is not modelled.
\<close>

text \<open>The nearest integer, the even one of the two when \<open>x\<close> lies halfway.\<close>

definition round_even :: "real \<Rightarrow> int" where
  "round_even x =
     (let n = \<lfloor>x\<rfloor>; r = x - of_int n
      in if r < 1 / 2 then n else if 1 / 2 < r then n + 1 else if even n then n else n + 1)"

text \<open>
  The binary exponent of a number other than zero, \<open>2 ^ e \<le> |x| < 2 ^ (e + 1)\<close>
  (\<open>exponent_bounds\<close> below); \<open>bitlen n\<close> is the number of binary digits of \<open>n\<close>.
\<close>

definition exponent :: "real \<Rightarrow> int" where
  "exponent x = (if 1 \<le> \<bar>x\<bar> then bitlen \<lfloor>\<bar>x\<bar>\<rfloor> - 1 else - bitlen (\<lceil>1 / \<bar>x\<bar>\<rceil> - 1))"

text \<open>
  Rounding to the nearest double, ties to even: doubles with exponent \<open>e\<close> are the
  multiples of \<open>2 ^ (e - 52)\<close> (53 significant bits), and below \<open>2 ^ - 1022\<close>
  they are the multiples of \<open>2 ^ - 1074\<close>.
\<close>

definition round_double :: "real \<Rightarrow> real" where
  "round_double x =
     (if x = 0 then 0
      else (let q = 2 powi (max (exponent x) (- 1022) - 52)
            in of_int (round_even (x / q)) * q))"

text \<open>The operators \<^verbatim>\<open>*\<close>, \<^verbatim>\<open>/\<close>, \<^verbatim>\<open>+\<close> and \<^verbatim>\<open>-\<close> on doubles.\<close>

definition double_mul :: "real \<Rightarrow> real \<Rightarrow> real" where
  "double_mul a b = round_double (a * b)"

definition double_div :: "real \<Rightarrow> real \<Rightarrow> real" where
  "double_div a b = round_double (a / b)"

definition double_add :: "real \<Rightarrow> real \<Rightarrow> real" where
  "double_add a b = round_double (a + b)"

definition double_sub :: "real \<Rightarrow> real \<Rightarrow> real" where
  "double_sub a b = round_double (a - b)"

datatype jsnum = Num real | NaN

text \<open>The product of two doubles, as \<^verbatim>\<open>rebuildPointField\<close> computes and floors it.\<close>

fun js_times :: "jsnum \<Rightarrow> jsnum \<Rightarrow> jsnum" where
  "js_times (Num a) (Num b) = Num (double_mul a b)"
| "js_times _ _ = NaN"

text \<open>The exact product and sum, for the cells of the fire field.\<close>

fun js_mul :: "jsnum \<Rightarrow> jsnum \<Rightarrow> jsnum" where
  "js_mul (Num a) (Num b) = Num (a * b)"
| "js_mul _ _ = NaN"

fun js_add :: "jsnum \<Rightarrow> jsnum \<Rightarrow> jsnum" where
  "js_add (Num a) (Num b) = Num (a + b)"
| "js_add _ _ = NaN"

fun js_floor :: "jsnum \<Rightarrow> jsnum" where
  "js_floor (Num a) = Num (of_int \<lfloor>a\<rfloor>)"
| "js_floor NaN = NaN"

text \<open>\<^verbatim>\<open>Math.max\<close> and \<^verbatim>\<open>Math.min\<close> return NaN as soon as one argument is NaN.\<close>

fun js_max :: "jsnum \<Rightarrow> jsnum \<Rightarrow> jsnum" where
  "js_max (Num a) (Num b) = Num (max a b)"
| "js_max _ _ = NaN"

fun js_min :: "jsnum \<Rightarrow> jsnum \<Rightarrow> jsnum" where
  "js_min (Num a) (Num b) = Num (min a b)"
| "js_min _ _ = NaN"

text \<open>Strict equality \<^verbatim>\<open>===\<close> on numbers: NaN equals nothing, not even itself.\<close>

fun js_strict_eq :: "jsnum \<Rightarrow> jsnum \<Rightarrow> bool" where
  "js_strict_eq (Num a) (Num b) = (a = b)"
| "js_strict_eq _ _ = False"

text \<open>
  The number of rounds of \<^verbatim>\<open>for (let i = 0; i < n; i++)\<close>: the least natural
  number \<open>i\<close> for which \<^verbatim>\<open>i < n\<close> fails (every comparison with NaN is false).
\<close>

fun loop_bound :: "jsnum \<Rightarrow> nat" where
  "loop_bound (Num a) = nat \<lceil>a\<rceil>"
| "loop_bound NaN = 0"

datatype error = RangeError

text \<open>
  \<^verbatim>\<open>new Float32Array(n)\<close> converts its argument with ToIndex: NaN becomes 0, a number
  is truncated towards zero, and a negative or too large result raises RangeError.
\<close>

fun to_index :: "jsnum \<Rightarrow> error + nat" where
  "to_index NaN = Inr 0"
| "to_index (Num a) =
     (let k = (if a < 0 then \<lceil>a\<rceil> else \<lfloor>a\<rfloor>)
      in if k < 0 \<or> 2 ^ 53 - 1 < k then Inl RangeError else Inr (nat k))"

text \<open>A fresh typed array of \<open>n\<close> cells, each holding \<open>z\<close> (the zero of the cell type).\<close>

definition new_Float32Array :: "'a \<Rightarrow> jsnum \<Rightarrow> error + 'a list" where
  "new_Float32Array z n = (case to_index n of Inl e \<Rightarrow> Inl e | Inr k \<Rightarrow> Inr (replicate k z))"

section \<open>The point-field animations\<close>

text \<open>
  \<^verbatim>\<open>templateField.js\<close>, \<^verbatim>\<open>vortex3.js\<close>, \<^verbatim>\<open>swirlField.js\<close> and
  \<^verbatim>\<open>orbitField.js\<close> share one shape: a closure over the variables below, and the
  functions \<^verbatim>\<open>fitCanvas\<close>, \<^verbatim>\<open>rebuildPointField\<close> (\<^verbatim>\<open>rebuildField\<close> in
  \<^verbatim>\<open>swirlField.js\<close>), \<^verbatim>\<open>loop\<close>, \<^verbatim>\<open>play\<close>, \<^verbatim>\<open>pause\<close>,
  \<^verbatim>\<open>reset\<close> and \<^verbatim>\<open>setParams\<close>. The model has one state record for the four
  closures and a tag for the module.
\<close>

datatype field = TemplateField | Vortex3 | SwirlField | OrbitField

text \<open>What the module passes to \<^verbatim>\<open>onStats\<close>, one constructor per shape of call.\<close>

datatype stat =
    Points jsnum
  | SpeedStat real
  | ZoomStat real
  | FrameStat real real real

text \<open>
  The closure variables keep their names (\<^verbatim>\<open>last\<close> is \<open>last_ts\<close>). Those that
  every module has come first; \<^verbatim>\<open>fireField.js\<close> extends the same record below.
  The surroundings of the closure are part of the state: \<open>onStats\<close> tells whether a
  callback was supplied and \<open>stats\<close> lists the calls made to it, \<open>rng\<close> is the
  sequence \<^verbatim>\<open>Math.random()\<close> draws from and \<open>rngPos\<close> the number of draws so far,
  \<open>rafSeq\<close> is the next handle of \<^verbatim>\<open>requestAnimationFrame\<close>. Drawing on the canvas
  is not part of the state.
\<close>

record 'd engine =
  W :: nat
  H :: nat
  baseDensity :: 'd
  speed :: real
  zoom :: real
  zoomAuto :: bool
  zoomPhase :: real
  running :: bool
  rafId :: "nat option"
  last_ts :: real
  fpsEMA :: real
  onStats :: bool
  stats :: "stat list"
  rng :: "nat \<Rightarrow> real"
  rngPos :: nat
  rafSeq :: nat

text \<open>
  \<open>xVals\<close>, \<open>yVals\<close> are the base attributes of the template, vortex and orbit
  fields, \<open>sVals\<close>, \<open>theta0Vals\<close>, \<open>radiusVals\<close> those of \<^verbatim>\<open>swirlField.js\<close>.
  The density of a point field is a \<open>jsnum\<close>: \<^verbatim>\<open>setParams\<close> stores whatever
  number it is given, NaN included.
\<close>

record pstate = "jsnum engine" +
  N :: jsnum
  xVals :: "real list"
  yVals :: "real list"
  sVals :: "real list"
  theta0Vals :: "real list"
  radiusVals :: "real list"
  t :: real

fun minPoints :: "field \<Rightarrow> int" where
  "minPoints TemplateField = 6000"
| "minPoints Vortex3 = 6000"
| "minPoints SwirlField = 3000"
| "minPoints OrbitField = 6000"

fun maxPoints :: "field \<Rightarrow> int" where
  "maxPoints TemplateField = 120000"
| "maxPoints Vortex3 = 90000"
| "maxPoints SwirlField = 90000"
| "maxPoints OrbitField = 120000"

text \<open>\<^verbatim>\<open>if (onStats) onStats(ev)\<close>, \<^verbatim>\<open>onStats && onStats(ev)\<close>, \<^verbatim>\<open>onStats?.(ev)\<close>.\<close>

definition emit :: "stat \<Rightarrow> ('d, 'z) engine_scheme \<Rightarrow> ('d, 'z) engine_scheme" where
  "emit ev st = (if onStats st then st\<lparr>stats := stats st @ [ev]\<rparr> else st)"

text \<open>\<^verbatim>\<open>for (let i = i0; i < i0 + n; i++) body(i)\<close> on the state.\<close>

fun for_loop :: "nat \<Rightarrow> nat \<Rightarrow> (nat \<Rightarrow> 's \<Rightarrow> 's) \<Rightarrow> 's \<Rightarrow> 's" where
  "for_loop 0 i body st = st"
| "for_loop (Suc n) i body st = for_loop n (Suc i) body (body i st)"

subsection \<open>The layout generators (the bodies of the loops of rebuildPointField)\<close>

definition template_body :: "nat \<Rightarrow> pstate \<Rightarrow> pstate" where
  "template_body i st =
     (let u = rng st (rngPos st);
          v = rng st (rngPos st + 1);
          r = sqrt u;
          theta = 2 * pi * v;
          x = r * cos theta;
          y = r * sin theta
      in st\<lparr>xVals := (xVals st)[i := x], yVals := (yVals st)[i := y],
             rngPos := rngPos st + 2\<rparr>)"

definition vortex_body :: "nat \<Rightarrow> pstate \<Rightarrow> pstate" where
  "vortex_body i st =
     (let u = rng st (rngPos st);
          v = rng st (rngPos st + 1);
          r = 1 - (1 - u) powr 1.6;
          theta = 2 * pi * v
      in st\<lparr>xVals := (xVals st)[i := r * cos theta], yVals := (yVals st)[i := r * sin theta],
             rngPos := rngPos st + 2\<rparr>)"

definition swirl_body :: "nat \<Rightarrow> pstate \<Rightarrow> pstate" where
  "swirl_body i st =
     (let s = rng st (rngPos st);
          baseRadius = 0.45 * (1 - s) powr 1.7 + 0.04;
          theta0 = 1.2 * pi * rng st (rngPos st + 1);
          jitter = (rng st (rngPos st + 2) - 0.5) * 0.05 * baseRadius
      in st\<lparr>sVals := (sVals st)[i := s], theta0Vals := (theta0Vals st)[i := theta0],
             radiusVals := (radiusVals st)[i := baseRadius + jitter],
             rngPos := rngPos st + 3\<rparr>)"

definition orbit_body :: "nat \<Rightarrow> pstate \<Rightarrow> pstate" where
  "orbit_body i st =
     (let ii = i + 1
      in st\<lparr>xVals := (xVals st)[i := real (ii mod 200)],
             yVals := (yVals st)[i := real ii / 43]\<rparr>)"

subsection \<open>rebuildPointField\<close>

definition target_count :: "field \<Rightarrow> pstate \<Rightarrow> jsnum" where
  "target_count f st =
     js_min (Num (of_int (maxPoints f)))
       (js_max (Num (of_int (minPoints f)))
          (js_floor (js_times (js_times (baseDensity st) (Num (real (W st)))) (Num (real (H st))))))"

text \<open>The test that guards the early return; \<^verbatim>\<open>orbitField.js\<close> compares the count only.\<close>

fun unchanged :: "field \<Rightarrow> jsnum \<Rightarrow> pstate \<Rightarrow> bool" where
  "unchanged TemplateField target st =
     (js_strict_eq target (N st) \<and> js_strict_eq (Num (real (length (xVals st)))) target)"
| "unchanged Vortex3 target st =
     (js_strict_eq target (N st) \<and> js_strict_eq (Num (real (length (xVals st)))) target)"
| "unchanged SwirlField target st =
     (js_strict_eq target (N st) \<and> js_strict_eq (Num (real (length (sVals st)))) target)"
| "unchanged OrbitField target st = js_strict_eq target (N st)"

text \<open>The early return: the three modules that follow the template report the count first.\<close>

fun early_return :: "field \<Rightarrow> pstate \<Rightarrow> pstate" where
  "early_return OrbitField st = st"
| "early_return f st = emit (Points (N st)) st"

fun allocate :: "field \<Rightarrow> real list \<Rightarrow> pstate \<Rightarrow> pstate" where
  "allocate SwirlField a st = st\<lparr>sVals := a, theta0Vals := a, radiusVals := a\<rparr>"
| "allocate f a st = st\<lparr>xVals := a, yVals := a\<rparr>"

fun layout_body :: "field \<Rightarrow> nat \<Rightarrow> pstate \<Rightarrow> pstate" where
  "layout_body TemplateField = template_body"
| "layout_body Vortex3 = vortex_body"
| "layout_body SwirlField = swirl_body"
| "layout_body OrbitField = orbit_body"

definition rebuildPointField :: "field \<Rightarrow> pstate \<Rightarrow> error + pstate" where
  "rebuildPointField f st =
     (let target = target_count f st
      in if unchanged f target st then Inr (early_return f st)
         else
           (case new_Float32Array 0 target of
              Inl e \<Rightarrow> Inl e
            | Inr a \<Rightarrow>
                (let st1 = allocate f a (st\<lparr>N := target\<rparr>);
                     st2 = for_loop (loop_bound target) 0 (layout_body f) st1
                 in Inr (emit (Points (N st2)) st2))))"

text \<open>
  \<^verbatim>\<open>fitCanvas\<close>: \<open>w\<close> and \<open>h\<close> are \<^verbatim>\<open>Math.floor(window.innerWidth)\<close> and
  \<^verbatim>\<open>Math.floor(window.innerHeight)\<close>; the sizing of the canvas is outside the model.
\<close>

definition fitCanvas :: "field \<Rightarrow> nat \<Rightarrow> nat \<Rightarrow> pstate \<Rightarrow> error + pstate" where
  "fitCanvas f w h st = rebuildPointField f (st\<lparr>W := w, H := h\<rparr>)"

text \<open>The clamp of the specification, \<open>clamp(x, lo, hi)\<close>.\<close>

definition clamp_spec :: "int \<Rightarrow> int \<Rightarrow> int \<Rightarrow> int" where
  "clamp_spec x lo hi = max lo (min x hi)"

subsection \<open>The frame loop\<close>

text \<open>
  \<^verbatim>\<open>const dt = Math.max(0.0001, (now - last) / 1000)\<close>: the timestamps are in
  milliseconds, \<open>dt\<close> is in seconds and never below a tenth of a millisecond.
\<close>

definition frame_dt :: "real \<Rightarrow> real \<Rightarrow> real" where
  "frame_dt now lst = max 0.0001 ((now - lst) / 1000)"

text \<open>\<^verbatim>\<open>speedScale\<close>; in \<^verbatim>\<open>orbitField.js\<close> it is \<^verbatim>\<open>targetRate\<close>.\<close>

fun speedScale :: "field \<Rightarrow> real" where
  "speedScale TemplateField = 60"
| "speedScale Vortex3 = 60"
| "speedScale SwirlField = 45"
| "speedScale OrbitField = (pi / 20) * 60"

fun amp :: "field \<Rightarrow> real" where
  "amp TemplateField = 0.08"
| "amp Vortex3 = 0.08"
| "amp SwirlField = 0.09"
| "amp OrbitField = 0.06"

fun hz :: "field \<Rightarrow> real" where
  "hz TemplateField = 0.09"
| "hz Vortex3 = 0.09"
| "hz SwirlField = 0.07"
| "hz OrbitField = 0.08"

definition request_frame :: "('d, 'z) engine_scheme \<Rightarrow> ('d, 'z) engine_scheme" where
  "request_frame st = st\<lparr>rafId := Some (rafSeq st), rafSeq := Suc (rafSeq st)\<rparr>"

text \<open>
  The zoom of the frame (\<open>z\<close>, \<open>zoomNow\<close>), read after \<open>zoomPhase\<close> has been
  advanced. It is a value of the frame only and is never stored.
\<close>

definition zoom_now :: "real \<Rightarrow> real \<Rightarrow> ('d, 'z) engine_scheme \<Rightarrow> real" where
  "zoom_now a h st =
     (if zoomAuto st then zoom st * (1 + a * sin (2 * pi * h * zoomPhase st)) else zoom st)"

text \<open>
  The part of \<open>loop(now)\<close> that changes closure variables, for a running animation.
  \<^verbatim>\<open>orbitField.js\<close> reports before it advances \<open>t\<close>, and reports \<open>zoom\<close>
  where the other three report the zoom of the frame.
\<close>

fun tick :: "field \<Rightarrow> real \<Rightarrow> pstate \<Rightarrow> pstate" where
  "tick OrbitField now st =
     (let dt = frame_dt now (last_ts st);
          s1 = st\<lparr>last_ts := now\<rparr>;
          fps = 1 / dt;
          s2 = s1\<lparr>fpsEMA := fpsEMA s1 * 0.9 + fps * 0.1\<rparr>;
          s3 = emit (FrameStat (fpsEMA s2) (speed s2) (zoom s2)) s2;
          s4 = s3\<lparr>t := t s3 + speedScale OrbitField * dt * speed s3\<rparr>
      in if zoomAuto s4 then s4\<lparr>zoomPhase := zoomPhase s4 + dt\<rparr> else s4)"
| "tick f now st =
     (let dt = frame_dt now (last_ts st);
          s1 = st\<lparr>last_ts := now\<rparr>;
          fps = 1 / dt;
          s2 = s1\<lparr>fpsEMA := fpsEMA s1 * 0.9 + fps * 0.1\<rparr>;
          s3 = s2\<lparr>t := t s2 + dt * speed s2 * speedScale f\<rparr>;
          s4 = (if zoomAuto s3 then s3\<lparr>zoomPhase := zoomPhase s3 + dt\<rparr> else s3)
      in emit (FrameStat (fpsEMA s4) (speed s4) (zoom_now (amp f) (hz f) s4)) s4)"

text \<open>
  \<open>loop(now)\<close>. After the tick the module draws (nothing when \<open>N\<close> is falsy)
  and asks for the next frame on every path.
\<close>

definition loop :: "field \<Rightarrow> real \<Rightarrow> pstate \<Rightarrow> pstate" where
  "loop f now st = (if \<not> running st then st else request_frame (tick f now st))"

text \<open>A run of frames, one call of \<open>loop\<close> per timestamp.\<close>

fun run_frames :: "field \<Rightarrow> real list \<Rightarrow> pstate \<Rightarrow> pstate" where
  "run_frames f [] st = st"
| "run_frames f (now # nows) st = run_frames f nows (loop f now st)"

subsection \<open>The public API\<close>

text \<open>\<open>play()\<close>; \<open>now\<close> is the value of \<^verbatim>\<open>performance.now()\<close> at the call.\<close>

definition play :: "real \<Rightarrow> ('d, 'z) engine_scheme \<Rightarrow> ('d, 'z) engine_scheme" where
  "play now st =
     (if running st then st else request_frame (st\<lparr>running := True, last_ts := now\<rparr>))"

definition pause :: "('d, 'z) engine_scheme \<Rightarrow> ('d, 'z) engine_scheme" where
  "pause st =
     (let s1 = st\<lparr>running := False\<rparr>
      in if rafId s1 \<noteq> None then s1\<lparr>rafId := None\<rparr> else s1)"

fun reset :: "field \<Rightarrow> pstate \<Rightarrow> pstate" where
  "reset OrbitField st = st\<lparr>t := 0\<rparr>"
| "reset f st = st\<lparr>t := 0, zoomPhase := 0\<rparr>"

text \<open>
  The argument of \<open>setParams\<close>: a field that is absent, \<^verbatim>\<open>undefined\<close> or
  \<^verbatim>\<open>null\<close> is \<open>None\<close> (the test is \<^verbatim>\<open>!= null\<close>). The argument itself is an
  object.
\<close>

record params =
  speed_p :: "real option"
  density_p :: "jsnum option"
  zoom_p :: "real option"
  zoomAuto_p :: "bool option"

definition set_speed :: "real option \<Rightarrow> ('d, 'z) engine_scheme \<Rightarrow> ('d, 'z) engine_scheme" where
  "set_speed p st =
     (case p of None \<Rightarrow> st | Some v \<Rightarrow> emit (SpeedStat v) (st\<lparr>speed := v\<rparr>))"

definition set_zoom :: "real option \<Rightarrow> ('d, 'z) engine_scheme \<Rightarrow> ('d, 'z) engine_scheme" where
  "set_zoom p st =
     (case p of None \<Rightarrow> st | Some v \<Rightarrow> emit (ZoomStat v) (st\<lparr>zoom := v\<rparr>))"

definition set_zoomAuto :: "bool option \<Rightarrow> ('d, 'z) engine_scheme \<Rightarrow> ('d, 'z) engine_scheme" where
  "set_zoomAuto p st =
     (case p of None \<Rightarrow> st
      | Some b \<Rightarrow> (let s1 = st\<lparr>zoomAuto := b\<rparr>
                   in if \<not> zoomAuto s1 then s1\<lparr>zoomPhase := 0\<rparr> else s1))"

definition set_density :: "field \<Rightarrow> jsnum option \<Rightarrow> pstate \<Rightarrow> error + pstate" where
  "set_density f p st =
     (case p of None \<Rightarrow> Inr st
      | Some d \<Rightarrow> rebuildPointField f (st\<lparr>baseDensity := d\<rparr>))"

definition setParams :: "field \<Rightarrow> params \<Rightarrow> pstate \<Rightarrow> error + pstate" where
  "setParams f p st =
     (case set_density f (density_p p) (set_speed (speed_p p) st) of
        Inl e \<Rightarrow> Inl e
      | Inr s2 \<Rightarrow> Inr (set_zoomAuto (zoomAuto_p p) (set_zoom (zoom_p p) s2)))"

text \<open>
  \<open>createAnimation\<close>. \<open>init\<close> is \<^verbatim>\<open>initialState\<close> (its fields are numbers
  and a boolean, or absent), \<open>run\<close> is \<^verbatim>\<open>initialState.running !== false\<close>, \<open>cb\<close> tells whether
  \<^verbatim>\<open>onStats\<close> was given, \<open>now\<close> and \<open>now'\<close> are the two readings of
  \<^verbatim>\<open>performance.now()\<close>, \<open>w\<close> and \<open>h\<close> the size of the window, \<open>r\<close> the
  random sequence.
\<close>

fun default_speed :: "field \<Rightarrow> real" where
  "default_speed TemplateField = 0.5"
| "default_speed Vortex3 = 0.5"
| "default_speed SwirlField = 0.1"
| "default_speed OrbitField = 0.05"

fun default_density :: "field \<Rightarrow> real" where
  "default_density SwirlField = round_double 0.0045"
| "default_density f = round_double 0.005"

definition initial :: "field \<Rightarrow> params \<Rightarrow> bool \<Rightarrow> real \<Rightarrow> (nat \<Rightarrow> real) \<Rightarrow> pstate" where
  "initial f init cb now r =
     \<lparr>W = 0, H = 0,
      baseDensity = (case density_p init of Some d \<Rightarrow> d | None \<Rightarrow> Num (default_density f)),
      speed = (case speed_p init of Some v \<Rightarrow> v | None \<Rightarrow> default_speed f),
      zoom = (case zoom_p init of Some v \<Rightarrow> v | None \<Rightarrow> 1.0),
      zoomAuto = (case zoomAuto_p init of Some b \<Rightarrow> b | None \<Rightarrow> False),
      zoomPhase = 0, running = False, rafId = None, last_ts = now, fpsEMA = 60,
      onStats = cb, stats = [], rng = r, rngPos = 0, rafSeq = 0,
      N = Num 0, xVals = [], yVals = [], sVals = [], theta0Vals = [], radiusVals = [],
      t = 0\<rparr>"

definition createAnimation ::
  "field \<Rightarrow> params \<Rightarrow> bool \<Rightarrow> bool \<Rightarrow> real \<Rightarrow> real \<Rightarrow> nat \<Rightarrow> nat \<Rightarrow> (nat \<Rightarrow> real) \<Rightarrow>
     error + pstate" where
  "createAnimation f init run cb now now' w h r =
     (case fitCanvas f w h (initial f init cb now r) of
        Inl e \<Rightarrow> Inl e
      | Inr s1 \<Rightarrow>
          (case setParams f init s1 of
             Inl e \<Rightarrow> Inl e
           | Inr s2 \<Rightarrow> Inr (if run then play now' s2 else s2)))"

section \<open>The two passes of the orbit field\<close>

text \<open>\<^verbatim>\<open>Math.atan2(y, x)\<close> on finite numbers (the sign of a zero is not modelled).\<close>

definition js_atan2 :: "real \<Rightarrow> real \<Rightarrow> real" where
  "js_atan2 y x =
     (if 0 < x then arctan (y / x)
      else if x < 0 then (if 0 \<le> y then arctan (y / x) + pi else arctan (y / x) - pi)
      else if 0 < y then pi / 2
      else if y < 0 then - (pi / 2)
      else 0)"

text \<open>The curve: \<open>(mx, my)\<close> of one particle, computed alike in both passes.\<close>

definition orbit_point :: "real \<Rightarrow> real \<Rightarrow> real \<Rightarrow> real \<times> real" where
  "orbit_point tt xv yv =
     (let k = 5 * cos (xv / 14) * cos (yv / 30);
          e = yv / 8 - 13;
          d = (k * k + e * e) / 59 + 4;
          q = 60 - 3 * sin (js_atan2 k e * e) + k * (3 + (4 / d) * sin (d * d - tt * 2));
          c = d / 2 + e / 99 - tt / 18
      in (q * sin c, (q + d * 9) * cos c))"

text \<open>
  The particles the two loops visit, in order. A read past the end of an array gives
  \<^verbatim>\<open>undefined\<close> and a point whose coordinates are NaN; no comparison admits it, so it
  changes neither the box nor the drawing, and the list keeps the indices inside both
  arrays only.
\<close>

definition orbit_points :: "pstate \<Rightarrow> (real \<times> real) list" where
  "orbit_points st =
     map (\<lambda>i. orbit_point (t st) (xVals st ! i) (yVals st ! i))
       [0..<min (loop_bound (N st)) (min (length (xVals st)) (length (yVals st)))]"

text \<open>The first pass: \<open>(minX, maxX, minY, maxY)\<close> over the points.\<close>

fun bbox_pass :: "(real \<times> real) list \<Rightarrow> real \<times> real \<times> real \<times> real \<Rightarrow> real \<times> real \<times> real \<times> real" where
  "bbox_pass [] b = b"
| "bbox_pass ((mx, my) # ps) (minX, maxX, minY, maxY) =
     bbox_pass ps
       (if mx < minX then mx else minX, if mx > maxX then mx else maxX,
        if my < minY then my else minY, if my > maxY then my else maxY)"

text \<open>Scale and offsets from the box: \<open>(scale, offX, offY)\<close>.\<close>

definition fit :: "nat \<Rightarrow> nat \<Rightarrow> real \<Rightarrow> real \<times> real \<times> real \<times> real \<Rightarrow> real \<times> real \<times> real" where
  "fit w h zoomNow b =
     (case b of (minX, maxX, minY, maxY) \<Rightarrow>
        (let bw = (if maxX - minX = 0 then 1 else maxX - minX);
             bh = (if maxY - minY = 0 then 1 else maxY - minY);
             margin = 0.92;
             baseScale = min ((real w * margin) / bw) ((real h * margin) / bh);
             scale = baseScale * zoomNow;
             cx = real w * 0.5;
             cy = real h * 0.5;
             midX = (minX + maxX) * 0.5;
             midY = (minY + maxY) * 0.5;
             offX = cx - midX * scale;
             offY = cy - midY * scale
         in (scale, offX, offY)))"

text \<open>
  The screen coordinates \<open>(x, y)\<close> the second pass computes, before the test that
  skips the points outside the canvas. The box starts at \<open>\<plusminus>\<close>Infinity, so the first
  point sets its four sides; with no point there is nothing to map.
\<close>

definition orbit_mapped :: "real \<Rightarrow> pstate \<Rightarrow> (real \<times> real) list" where
  "orbit_mapped zoomNow st =
     (case orbit_points st of
        [] \<Rightarrow> []
      | (mx0, my0) # ps \<Rightarrow>
          (case fit (W st) (H st) zoomNow (bbox_pass ps (mx0, mx0, my0, my0)) of
             (scale, offX, offY) \<Rightarrow>
               map (\<lambda>(mx, my). (mx * scale + offX, my * scale + offY)) ((mx0, my0) # ps)))"

text \<open>The coordinates computed by \<open>loop(now)\<close> of a running orbit field.\<close>

definition orbit_frame :: "real \<Rightarrow> pstate \<Rightarrow> (real \<times> real) list" where
  "orbit_frame now st =
     (let s = tick OrbitField now st
      in orbit_mapped (zoom_now (amp OrbitField) (hz OrbitField) s) s)"

text \<open>The points that pass \<^verbatim>\<open>x >= 0 && x < W && y >= 0 && y < H\<close> and are drawn.\<close>

definition orbit_drawn :: "real \<Rightarrow> pstate \<Rightarrow> (real \<times> real) list" where
  "orbit_drawn now st =
     filter (\<lambda>(x, y). 0 \<le> x \<and> x < real (W st) \<and> 0 \<le> y \<and> y < real (H st)) (orbit_frame now st)"

text \<open>
  The framing property of the specification: every mapped coordinate within the canvas
  widened by \<open>slack\<close> on each side.
\<close>

definition framed :: "real \<Rightarrow> nat \<Rightarrow> nat \<Rightarrow> (real \<times> real) list \<Rightarrow> bool" where
  "framed slack w h ps =
     list_all (\<lambda>(x, y). - slack \<le> x \<and> x \<le> real w + slack \<and> - slack \<le> y \<and> y \<le> real h + slack) ps"

section \<open>The fire field\<close>

text \<open>
  \<^verbatim>\<open>fireField.js\<close>. The density is a finite number here, the sizes of the grid are
  natural numbers. The cells of \<open>buffer\<close> are \<open>jsnum\<close>s: the diffusion reads ahead
  of the cell it writes, and a read past the end of a typed array gives
  \<^verbatim>\<open>undefined\<close>, which turns the sum into NaN. The sizes of the grid, the number of
  seeds and the column of a seed are integer parts of computed numbers, so the
  operations under \<^verbatim>\<open>Math.floor\<close> and \<^verbatim>\<open>| 0\<close> are those of doubles, and the
  literal \<^verbatim>\<open>0.8\<close> is the double nearest to it.
\<close>

record fstate = "real engine" +
  gridW :: nat
  gridH :: nat
  gridSize :: nat
  buffer :: "jsnum list"

definition rd :: "jsnum list \<Rightarrow> nat \<Rightarrow> jsnum" where
  "rd buf i = (if i < length buf then buf ! i else NaN)"

text \<open>A write to a typed array; an index outside the array is ignored.\<close>

definition wr :: "jsnum list \<Rightarrow> int \<Rightarrow> jsnum \<Rightarrow> jsnum list" where
  "wr buf i v = (if 0 \<le> i \<and> nat i < length buf then buf[nat i := v] else buf)"

definition rebuildGrid :: "fstate \<Rightarrow> error + fstate" where
  "rebuildGrid st =
     (let d = max 0 (min 1 (baseDensity st));
          cellSize = max 14 (double_sub 28 (double_mul d 10));
          gw = max 24 (nat \<lfloor>double_div (real (W st)) cellSize\<rfloor>);
          gh = max 18 (nat \<lfloor>double_div (real (H st)) (double_mul cellSize (round_double 0.8))\<rfloor>);
          gs = gw * gh
      in case new_Float32Array (Num 0) (Num (real (gs + gw + 1))) of
           Inl e \<Rightarrow> Inl e
         | Inr b \<Rightarrow>
             Inr (emit (Points (Num (real gs)))
                    (st\<lparr>gridW := gw, gridH := gh, gridSize := gs, buffer := b\<rparr>)))"

definition fitCanvas_fire :: "nat \<Rightarrow> nat \<Rightarrow> fstate \<Rightarrow> error + fstate" where
  "fitCanvas_fire w h st = rebuildGrid (st\<lparr>W := w, H := h\<rparr>)"

text \<open>
  \<^verbatim>\<open>x | 0\<close> on a number is ToInt32: truncation towards zero, then the value modulo
  \<open>2 ^ 32\<close> that lies between \<open>- 2 ^ 31\<close> and \<open>2 ^ 31 - 1\<close>.
\<close>

definition trunc0 :: "real \<Rightarrow> int" where
  "trunc0 x = (if x < 0 then \<lceil>x\<rceil> else \<lfloor>x\<rfloor>)"

definition to_int32 :: "real \<Rightarrow> int" where
  "to_int32 x = (trunc0 x + 2 ^ 31) mod 2 ^ 32 - 2 ^ 31"

text \<open>One round of the seeding loop: a random column of the bottom row is lit.\<close>

definition seed_body :: "nat \<Rightarrow> fstate \<Rightarrow> fstate" where
  "seed_body i st =
     (let col = to_int32 (double_mul (rng st (rngPos st)) (real (gridW st)));
          idx = col + int (gridW st) * (int (gridH st) - 1)
      in st\<lparr>buffer := wr (buffer st) idx (Num (60 + rng st (rngPos st + 1) * 5)),
             rngPos := rngPos st + 2\<rparr>)"

text \<open>One round of the diffusion loop and one of the fading loop, on the buffer.\<close>

definition diffuse_body :: "nat \<Rightarrow> nat \<Rightarrow> jsnum list \<Rightarrow> jsnum list" where
  "diffuse_body gw i buf =
     (let v = js_add (js_add (js_add (rd buf i) (rd buf (i + 1))) (rd buf (i + gw)))
                (rd buf (i + gw + 1))
      in buf[i := js_mul v (Num 0.25)])"

definition fade_body :: "nat \<Rightarrow> jsnum list \<Rightarrow> jsnum list" where
  "fade_body i buf = buf[i := js_mul (rd buf i) (Num 0.985)]"

text \<open>The step without its seeding: the diffusion loop, then the fading loop.\<close>

definition diffuse_fade :: "nat \<Rightarrow> nat \<Rightarrow> jsnum list \<Rightarrow> jsnum list" where
  "diffuse_fade gw gs buf = for_loop gs 0 fade_body (for_loop gs 0 (diffuse_body gw) buf)"

definition fire_step :: "nat \<Rightarrow> fstate \<Rightarrow> fstate" where
  "fire_step seedCount st =
     (let s1 = for_loop seedCount 0 seed_body st
      in s1\<lparr>buffer := diffuse_fade (gridW s1) (gridSize s1) (buffer s1)\<rparr>)"

definition stepFire :: "nat \<Rightarrow> fstate \<Rightarrow> fstate" where
  "stepFire steps st =
     (if gridSize st = 0 then st
      else
        (let d = max 0 (min 1 (baseDensity st));
             seedCount =
               max 1 (nat \<lfloor>double_div (real (gridW st))
                                (double_add 6 (double_mul 4 (double_sub 1 d)))\<rfloor>)
         in for_loop steps 0 (\<lambda>s. fire_step seedCount) st))"

text \<open>\<open>loop(now)\<close> of the fire field; \<^verbatim>\<open>Math.round(x)\<close> is \<open>\<lfloor>x + 1/2\<rfloor>\<close>.\<close>

definition tick_fire :: "real \<Rightarrow> fstate \<Rightarrow> fstate" where
  "tick_fire now st =
     (let dt = frame_dt now (last_ts st);
          s1 = st\<lparr>last_ts := now\<rparr>;
          fps = 1 / dt;
          s2 = s1\<lparr>fpsEMA := fpsEMA s1 * 0.9 + fps * 0.1\<rparr>;
          steps = nat (max 1 \<lfloor>speed s2 * 4 + 1 / 2\<rfloor>);
          s3 = stepFire steps s2;
          s4 = (if zoomAuto s3 then s3\<lparr>zoomPhase := zoomPhase s3 + dt\<rparr> else s3)
      in emit (FrameStat (fpsEMA s4) (speed s4) (zoom_now 0.07 0.07 s4)) s4)"

definition loop_fire :: "real \<Rightarrow> fstate \<Rightarrow> fstate" where
  "loop_fire now st = (if \<not> running st then st else request_frame (tick_fire now st))"

definition reset_fire :: "fstate \<Rightarrow> fstate" where
  "reset_fire st =
     (let s1 = (if length (buffer st) \<noteq> 0
                then st\<lparr>buffer := replicate (length (buffer st)) (Num 0)\<rparr> else st)
      in s1\<lparr>zoomPhase := 0\<rparr>)"

text \<open>Cells that hold a number between two bounds.\<close>

fun cell_in :: "real \<Rightarrow> real \<Rightarrow> jsnum \<Rightarrow> bool" where
  "cell_in lo hi (Num v) = (lo \<le> v \<and> v \<le> hi)"
| "cell_in lo hi NaN = False"

section \<open>Notions used in the statements\<close>

text \<open>The values of \<open>dt\<close> in a run of frames that starts with \<open>last = lst\<close>.\<close>

fun frame_dts :: "real \<Rightarrow> real list \<Rightarrow> real list" where
  "frame_dts lst [] = []"
| "frame_dts lst (now # nows) = frame_dt now lst # frame_dts now nows"

text \<open>Every frame of the run comes at least a tenth of a millisecond after the one before.\<close>

fun steps_ok :: "real \<Rightarrow> real list \<Rightarrow> bool" where
  "steps_ok lst [] = True"
| "steps_ok lst (now # nows) = (0.1 \<le> now - lst \<and> steps_ok now nows)"

text \<open>The timestamp of the last frame of a run.\<close>

fun final_ts :: "real \<Rightarrow> real list \<Rightarrow> real" where
  "final_ts lst [] = lst"
| "final_ts lst (now # nows) = final_ts now nows"

text \<open>
  What \<open>rebuildPointField\<close> may change: the count, the attribute arrays, the position in
  the random sequence and the list of reports. Everything else is kept.
\<close>

definition kept :: "pstate \<Rightarrow> pstate \<Rightarrow> bool" where
  "kept st st' \<longleftrightarrow>
     W st' = W st \<and> H st' = H st \<and> baseDensity st' = baseDensity st \<and> speed st' = speed st \<and>
     zoom st' = zoom st \<and> zoomAuto st' = zoomAuto st \<and> zoomPhase st' = zoomPhase st \<and>
     running st' = running st \<and> rafId st' = rafId st \<and> last_ts st' = last_ts st \<and>
     fpsEMA st' = fpsEMA st \<and> onStats st' = onStats st \<and> rng st' = rng st \<and>
     rafSeq st' = rafSeq st \<and> t st' = t st"

text \<open>
  The parameter object \<^verbatim>\<open>{density: d}\<close>, and the state of the host's controls:
  \<^verbatim>\<open>main.js\<close> reads the density with \<^verbatim>\<open>parseFloat\<close>, which gives the double nearest
  to the decimal \<open>d\<close> of the slider.
\<close>

definition density_only :: "jsnum \<Rightarrow> params" where
  "density_only d = \<lparr>speed_p = None, density_p = Some d, zoom_p = None, zoomAuto_p = None\<rparr>"

definition ui_state :: "real \<Rightarrow> real \<Rightarrow> real \<Rightarrow> bool \<Rightarrow> params" where
  "ui_state s d z a =
     \<lparr>speed_p = Some s, density_p = Some (Num (round_double d)), zoom_p = Some z,
      zoomAuto_p = Some a\<rparr>"

text \<open>
  The template field as \<^verbatim>\<open>main.js\<close> creates it: an 800 by 600 window, the state of
  the controls \<open>speed = 1\<close>, \<open>density = 0.005\<close> (the double nearest to it),
  \<open>zoom = 1\<close>, auto zoom off, a
  callback, both clock readings 0, and a random sequence of zeros (so every base point is
  the origin). \<open>created_template\<close> below shows that \<open>createAnimation\<close> returns it.
\<close>

definition template_created :: pstate where
  "template_created =
     \<lparr>W = 800, H = 600, baseDensity = Num (round_double 0.005), speed = 1, zoom = 1, zoomAuto = False,
      zoomPhase = 0, running = True, rafId = Some 0, last_ts = 0, fpsEMA = 60,
      onStats = True,
      stats = [Points (Num 6000), SpeedStat 1, Points (Num 6000), ZoomStat 1],
      rng = (\<lambda>i. 0), rngPos = 12000, rafSeq = 1,
      N = Num 6000, xVals = replicate 6000 0, yVals = replicate 6000 0,
      sVals = [], theta0Vals = [], radiusVals = [], t = 0\<rparr>"

text \<open>The layout of the orbit field with \<open>n\<close> particles.\<close>

definition orbit_xs :: "nat \<Rightarrow> real list" where
  "orbit_xs n = map (\<lambda>i. real ((i + 1) mod 200)) [0..<n]"

definition orbit_ys :: "nat \<Rightarrow> real list" where
  "orbit_ys n = map (\<lambda>i. real (i + 1) / 43) [0..<n]"

text \<open>
  The arrays of the other three fields after a regeneration with \<open>n\<close> particles, when
  \<^verbatim>\<open>Math.random()\<close> draws from the sequence \<open>r\<close> at position \<open>p\<close> on: two
  draws for each particle of the template and vortex fields, three for each particle of
  the swirl field.
\<close>

definition template_xs :: "(nat \<Rightarrow> real) \<Rightarrow> nat \<Rightarrow> nat \<Rightarrow> real list" where
  "template_xs r p n =
     map (\<lambda>i. sqrt (r (p + 2 * i)) * cos (2 * pi * r (p + 2 * i + 1))) [0..<n]"

definition template_ys :: "(nat \<Rightarrow> real) \<Rightarrow> nat \<Rightarrow> nat \<Rightarrow> real list" where
  "template_ys r p n =
     map (\<lambda>i. sqrt (r (p + 2 * i)) * sin (2 * pi * r (p + 2 * i + 1))) [0..<n]"

definition vortex_xs :: "(nat \<Rightarrow> real) \<Rightarrow> nat \<Rightarrow> nat \<Rightarrow> real list" where
  "vortex_xs r p n =
     map (\<lambda>i. (1 - (1 - r (p + 2 * i)) powr 1.6) * cos (2 * pi * r (p + 2 * i + 1))) [0..<n]"

definition vortex_ys :: "(nat \<Rightarrow> real) \<Rightarrow> nat \<Rightarrow> nat \<Rightarrow> real list" where
  "vortex_ys r p n =
     map (\<lambda>i. (1 - (1 - r (p + 2 * i)) powr 1.6) * sin (2 * pi * r (p + 2 * i + 1))) [0..<n]"

definition swirl_ss :: "(nat \<Rightarrow> real) \<Rightarrow> nat \<Rightarrow> nat \<Rightarrow> real list" where
  "swirl_ss r p n = map (\<lambda>i. r (p + 3 * i)) [0..<n]"

definition swirl_thetas :: "(nat \<Rightarrow> real) \<Rightarrow> nat \<Rightarrow> nat \<Rightarrow> real list" where
  "swirl_thetas r p n = map (\<lambda>i. 1.2 * pi * r (p + 3 * i + 1)) [0..<n]"

definition swirl_radii :: "(nat \<Rightarrow> real) \<Rightarrow> nat \<Rightarrow> nat \<Rightarrow> real list" where
  "swirl_radii r p n =
     map (\<lambda>i. (0.45 * (1 - r (p + 3 * i)) powr 1.7 + 0.04)
               + (r (p + 3 * i + 2) - 0.5) * 0.05 * (0.45 * (1 - r (p + 3 * i)) powr 1.7 + 0.04))
       [0..<n]"

text \<open>
  The point field of \<open>st'\<close> is the one a rebuild generates from the state \<open>st\<close> for
  \<open>n\<close> particles: the arrays of the field hold the fresh layout, and the random
  sequence has been read up to the end of it.
\<close>

fun regenerated :: "field \<Rightarrow> pstate \<Rightarrow> nat \<Rightarrow> pstate \<Rightarrow> bool" where
  "regenerated TemplateField st n st' \<longleftrightarrow>
     xVals st' = template_xs (rng st) (rngPos st) n \<and>
     yVals st' = template_ys (rng st) (rngPos st) n \<and> rngPos st' = rngPos st + 2 * n"
| "regenerated Vortex3 st n st' \<longleftrightarrow>
     xVals st' = vortex_xs (rng st) (rngPos st) n \<and>
     yVals st' = vortex_ys (rng st) (rngPos st) n \<and> rngPos st' = rngPos st + 2 * n"
| "regenerated SwirlField st n st' \<longleftrightarrow>
     sVals st' = swirl_ss (rng st) (rngPos st) n \<and>
     theta0Vals st' = swirl_thetas (rng st) (rngPos st) n \<and>
     radiusVals st' = swirl_radii (rng st) (rngPos st) n \<and> rngPos st' = rngPos st + 3 * n"
| "regenerated OrbitField st n st' \<longleftrightarrow>
     xVals st' = orbit_xs n \<and> yVals st' = orbit_ys n \<and> rngPos st' = rngPos st"

text \<open>The point field of \<open>st'\<close> is that of \<open>st\<close>: no array and no random draw differs.\<close>

definition same_field :: "pstate \<Rightarrow> pstate \<Rightarrow> bool" where
  "same_field st st' \<longleftrightarrow>
     xVals st' = xVals st \<and> yVals st' = yVals st \<and> sVals st' = sVals st \<and>
     theta0Vals st' = theta0Vals st \<and> radiusVals st' = radiusVals st \<and> rngPos st' = rngPos st"

text \<open>
  The orbit field created the same way, with speed \<open>s\<close>, zoom \<open>z\<close> and auto zoom
  \<open>a\<close> (\<open>created_orbit\<close> below).
\<close>

definition orbit_created :: "real \<Rightarrow> real \<Rightarrow> bool \<Rightarrow> pstate" where
  "orbit_created s z a =
     \<lparr>W = 800, H = 600, baseDensity = Num (round_double 0.005), speed = s, zoom = z, zoomAuto = a,
      zoomPhase = 0, running = True, rafId = Some 0, last_ts = 0, fpsEMA = 60,
      onStats = True,
      stats = [Points (Num 6000), SpeedStat s, ZoomStat z],
      rng = (\<lambda>i. 0), rngPos = 0, rafSeq = 1,
      N = Num 6000, xVals = orbit_xs 6000, yVals = orbit_ys 6000,
      sVals = [], theta0Vals = [], radiusVals = [], t = 0\<rparr>"

text \<open>
  The orbit field created in the same window with the density 0.05 of the specification's
  scenario, so with 24000 particles (\<open>created_orbit_dense\<close> below).
\<close>

definition orbit_dense :: "real \<Rightarrow> real \<Rightarrow> bool \<Rightarrow> pstate" where
  "orbit_dense s z a =
     \<lparr>W = 800, H = 600, baseDensity = Num (round_double 0.05), speed = s, zoom = z, zoomAuto = a,
      zoomPhase = 0, running = True, rafId = Some 0, last_ts = 0, fpsEMA = 60,
      onStats = True,
      stats = [Points (Num 24000), SpeedStat s, ZoomStat z],
      rng = (\<lambda>i. 0), rngPos = 0, rafSeq = 1,
      N = Num 24000, xVals = orbit_xs 24000, yVals = orbit_ys 24000,
      sVals = [], theta0Vals = [], radiusVals = [], t = 0\<rparr>"

text \<open>
  The arrays of an orbit field hold the layout of its count: true of the initial state
  and kept by \<open>rebuildPointField\<close>.
\<close>

definition orbit_inv :: "pstate \<Rightarrow> bool" where
  "orbit_inv st \<longleftrightarrow>
     xVals st = orbit_xs (loop_bound (N st)) \<and> yVals st = orbit_ys (loop_bound (N st))"

text \<open>
  The cells of the grid hold numbers between 0 and \<open>m\<close>, and the padding after the
  grid holds zeros.
\<close>

definition fire_ok :: "nat \<Rightarrow> real \<Rightarrow> jsnum list \<Rightarrow> bool" where
  "fire_ok gs m buf \<longleftrightarrow>
     list_all (cell_in 0 m) (take gs buf) \<and> list_all (\<lambda>c. c = Num 0) (drop gs buf)"

text \<open>
  What holds of the fire field from \<open>rebuildGrid\<close> on, when \<^verbatim>\<open>Math.random()\<close>
  draws from \<open>[0, 1)\<close> (the largest double below 1 is \<open>1 - 2 ^ - 53\<close>): the buffer
  has the size of the grid and its padding, the grid cells lie between 0 and 65 (a seed
  is below \<open>60 + 5\<close>), the padding is zero.
\<close>

definition fire_inv :: "fstate \<Rightarrow> bool" where
  "fire_inv st \<longleftrightarrow>
     length (buffer st) = gridSize st + gridW st + 1 \<and> gridSize st = gridW st * gridH st \<and>
     0 < gridW st \<and> int (gridW st) < 2 ^ 53 \<and> 0 < gridH st \<and>
     fire_ok (gridSize st) 65 (buffer st) \<and>
     (\<forall>i. 0 \<le> rng st i \<and> rng st i \<le> 1 - 1 / 2 ^ 53)"

text \<open>
  The fire field of a 300 by 300 window with density 0.3 (the double nearest to it):
  cells of 25 pixels, so the grid has its least size, 24 by 18, and the buffer
  432 + 24 + 1 cells (\<open>rebuildGrid_fire_300\<close> below). The random sequence starts with
  31/32 and 0: the first seed lights the last column of the bottom row, cell 431, with
  60.
\<close>

definition fire_300 :: fstate where
  "fire_300 =
     \<lparr>W = 300, H = 300, baseDensity = round_double 0.3, speed = 0.2, zoom = 1, zoomAuto = False,
      zoomPhase = 0, running = True, rafId = Some 0, last_ts = 0, fpsEMA = 60,
      onStats = True, stats = [Points (Num 432)],
      rng = (\<lambda>i. if i = 0 then 31 / 32 else 0), rngPos = 0, rafSeq = 1,
      gridW = 24, gridH = 18, gridSize = 432, buffer = replicate 457 (Num 0)\<rparr>"

definition fire_seeded :: "jsnum list" where
  "fire_seeded = (replicate 457 (Num 0))[431 := Num 60]"

section \<open>The rounding of doubles\<close>

lemma round_even_of_int: "round_even (of_int k) = k"
  by (simp add: round_even_def)

lemma round_even_near: "\<bar>of_int (round_even x) - x\<bar> \<le> 1 / 2"
  unfolding round_even_def Let_def by (auto simp: abs_le_iff)

lemma round_even_nonpos: "x \<le> 0 \<Longrightarrow> round_even x \<le> 0"
  unfolding round_even_def Let_def by (auto simp: floor_le_iff)

lemma round_even_nonneg: "0 \<le> x \<Longrightarrow> 0 \<le> round_even x"
  unfolding round_even_def Let_def by auto

lemma round_double_nonpos: "x \<le> 0 \<Longrightarrow> round_double x \<le> 0"
  unfolding round_double_def Let_def
  by (auto intro!: mult_nonpos_nonneg round_even_nonpos simp: divide_nonpos_pos)

lemma round_double_nonneg: "0 \<le> x \<Longrightarrow> 0 \<le> round_double x"
  unfolding round_double_def Let_def
  by (auto intro!: mult_nonneg_nonneg round_even_nonneg)

lemma exponent_bounds:
  assumes "x \<noteq> 0"
  shows "2 powi exponent x \<le> \<bar>x\<bar>" and "\<bar>x\<bar> < 2 powi (exponent x + 1)"
proof -
  show "2 powi exponent x \<le> \<bar>x\<bar>"
  proof (cases "1 \<le> \<bar>x\<bar>")
    case True
    define n where "n = \<lfloor>\<bar>x\<bar>\<rfloor>"
    have n: "0 < n" using True by (simp add: n_def)
    have b: "1 \<le> bitlen n" using n by (simp add: bitlen_alt_def)
    have "2 ^ nat (bitlen n - 1) \<le> n" using bitlen_bounds[OF n] by simp
    then have "(2::real) ^ nat (bitlen n - 1) \<le> of_int n"
      by (metis of_int_le_iff of_int_numeral of_int_power)
    also have "\<dots> \<le> \<bar>x\<bar>" by (simp add: n_def)
    finally show ?thesis using True b by (simp add: exponent_def n_def power_int_def)
  next
    case False
    define m where "m = \<lceil>1 / \<bar>x\<bar>\<rceil> - 1"
    have y: "1 < 1 / \<bar>x\<bar>" using False assms by simp
    then have m: "0 < m" unfolding m_def by linarith
    have "m < 2 ^ nat (bitlen m)" using bitlen_bounds[OF m] by simp
    then have "m + 1 \<le> 2 ^ nat (bitlen m)" by simp
    then have "of_int (m + 1) \<le> (2::real) ^ nat (bitlen m)"
      by (metis of_int_le_iff of_int_numeral of_int_power)
    moreover have "1 / \<bar>x\<bar> \<le> of_int (m + 1)" unfolding m_def by simp
    ultimately have "1 / \<bar>x\<bar> \<le> 2 ^ nat (bitlen m)" by linarith
    then have "1 / 2 ^ nat (bitlen m) \<le> \<bar>x\<bar>"
      using assms by (simp add: field_simps)
    moreover have "2 powi (- bitlen m) = (1::real) / 2 ^ nat (bitlen m)"
      using bitlen_nonneg[of m] by (simp add: power_int_def field_simps)
    ultimately show ?thesis using False by (simp add: exponent_def m_def)
  qed
  show "\<bar>x\<bar> < 2 powi (exponent x + 1)"
  proof (cases "1 \<le> \<bar>x\<bar>")
    case True
    define n where "n = \<lfloor>\<bar>x\<bar>\<rfloor>"
    have n: "0 < n" using True by (simp add: n_def)
    have b: "1 \<le> bitlen n" using n by (simp add: bitlen_alt_def)
    have "n + 1 \<le> 2 ^ nat (bitlen n)" using bitlen_bounds[OF n] by simp
    then have "of_int (n + 1) \<le> (2::real) ^ nat (bitlen n)"
      by (metis of_int_le_iff of_int_numeral of_int_power)
    moreover have "\<bar>x\<bar> < of_int (n + 1)" unfolding n_def by linarith
    ultimately have "\<bar>x\<bar> < 2 ^ nat (bitlen n)" by linarith
    then show ?thesis using True b by (simp add: exponent_def n_def power_int_def)
  next
    case False
    define m where "m = \<lceil>1 / \<bar>x\<bar>\<rceil> - 1"
    have y: "1 < 1 / \<bar>x\<bar>" using False assms by simp
    then have m: "0 < m" unfolding m_def by linarith
    have b: "1 \<le> bitlen m" using m by (simp add: bitlen_alt_def)
    have "2 ^ nat (bitlen m - 1) \<le> m" using bitlen_bounds[OF m] by simp
    then have "(2::real) ^ nat (bitlen m - 1) \<le> of_int m"
      by (metis of_int_le_iff of_int_numeral of_int_power)
    moreover have "of_int m < 1 / \<bar>x\<bar>" unfolding m_def by linarith
    ultimately have "2 ^ nat (bitlen m - 1) < 1 / \<bar>x\<bar>" by linarith
    then have "\<bar>x\<bar> < 1 / 2 ^ nat (bitlen m - 1)"
      using assms by (simp add: field_simps)
    moreover have "2 powi (- bitlen m + 1) = (1::real) / 2 ^ nat (bitlen m - 1)"
    proof -
      have "- bitlen m + 1 = - int (nat (bitlen m - 1))" using b by simp
      then show ?thesis by (simp only: power_int_minus power_int_of_nat) (simp add: field_simps)
    qed
    ultimately show ?thesis using False by (simp add: exponent_def m_def)
  qed
qed

lemma round_double_near:
  assumes "x \<noteq> 0"
  shows "\<bar>round_double x - x\<bar> \<le> 2 powi (max (exponent x) (- 1022) - 52) / 2"
proof -
  define q :: real where "q = 2 powi (max (exponent x) (- 1022) - 52)"
  have q: "0 < q" by (simp add: q_def)
  have "\<bar>of_int (round_even (x / q)) - x / q\<bar> \<le> 1 / 2" by (rule round_even_near)
  then have "\<bar>of_int (round_even (x / q)) - x / q\<bar> * q \<le> 1 / 2 * q"
    using q by (simp add: mult_right_mono)
  moreover have "\<bar>of_int (round_even (x / q)) - x / q\<bar> * q = \<bar>of_int (round_even (x / q)) * q - x\<bar>"
    using q by (simp add: abs_mult_pos[symmetric] field_simps del: abs_mult_pos)
  ultimately have "\<bar>of_int (round_even (x / q)) * q - x\<bar> \<le> q / 2" by simp
  moreover have "round_double x = of_int (round_even (x / q)) * q"
    using assms by (simp add: round_double_def Let_def q_def)
  ultimately show ?thesis unfolding q_def by simp
qed

lemma round_double_of_int:
  assumes "\<bar>k\<bar> < 2 ^ 53"
  shows "round_double (of_int k) = of_int k"
proof (cases "k = 0")
  case True
  then show ?thesis by (simp add: round_double_def)
next
  case False
  define e where "e = exponent (of_int k)"
  have k1: "0 < \<bar>k\<bar>" using False by simp
  have fl: "\<lfloor>\<bar>real_of_int k\<bar>\<rfloor> = \<bar>k\<bar>"
    by (metis floor_of_int of_int_abs)
  have "1 \<le> \<bar>k\<bar>" using False by linarith
  then have "real_of_int 1 \<le> real_of_int \<bar>k\<bar>" by (simp only: of_int_le_iff)
  then have ge: "1 \<le> \<bar>real_of_int k\<bar>" by simp
  have e: "e = bitlen \<bar>k\<bar> - 1" using ge fl by (simp add: e_def exponent_def)
  have "bitlen \<bar>k\<bar> \<le> 53" using assms by (simp add: bitlen_le_iff_power)
  moreover have "1 \<le> bitlen \<bar>k\<bar>" using k1 by (simp add: bitlen_alt_def)
  ultimately have er: "0 \<le> e" "e \<le> 52" using e by simp_all
  define m where "m = nat (52 - e)"
  have q: "2 powi (max e (- 1022) - 52) = (1::real) / 2 ^ m"
  proof -
    have "max e (- 1022) - 52 = - int m" using er by (simp add: m_def)
    then show ?thesis by (simp only: power_int_minus power_int_of_nat) (simp add: field_simps)
  qed
  have "real_of_int k / (1 / 2 ^ m) = of_int (k * 2 ^ m)" by simp
  then have "round_even (real_of_int k / (1 / 2 ^ m)) = k * 2 ^ m"
    by (simp only: round_even_of_int)
  then show ?thesis
    using False by (simp add: round_double_def Let_def q e_def[symmetric])
qed

lemma round_double_numeral:
  "(numeral n :: int) < 2 ^ 53 \<Longrightarrow> round_double (numeral n) = numeral n"
  using round_double_of_int[of "numeral n"] by simp

lemma round_double_0 [simp]: "round_double 0 = 0"
  by (simp add: round_double_def)

lemma round_double_1: "round_double 1 = 1"
  using round_double_of_int[of 1] by simp

lemma round_even_less:
  assumes "x < of_int k - 1 / 2"
  shows "round_even x \<le> k - 1"
proof -
  have "of_int (round_even x) \<le> x + 1 / 2"
    using round_even_near[of x] unfolding abs_le_iff by linarith
  then have "real_of_int (round_even x) < of_int k" using assms by linarith
  then show ?thesis by linarith
qed

text \<open>
  A double below 1 times a natural number \<open>n\<close> stays below \<open>n\<close> after rounding, so
  \<^verbatim>\<open>(Math.random() * n) | 0\<close> is an index below \<open>n\<close>.
\<close>

lemma round_double_below:
  fixes n :: nat
  assumes "0 \<le> r" and "r \<le> 1 - 1 / 2 ^ 53" and "0 < n" and "int n < 2 ^ 53"
  shows "round_double (r * real n) < real n"
proof (cases "r * real n = 0")
  case True
  then show ?thesis using assms(3) by simp
next
  case False
  define x where "x = r * real n"
  have "0 \<le> x" using assms(1) by (simp add: x_def)
  moreover have "x \<noteq> 0" using False by (simp only: x_def not_False_eq_True)
  ultimately have x0: "0 < x" by linarith
  have "r * real n \<le> (1 - 1 / 2 ^ 53) * real n"
    using assms(2) by (rule mult_right_mono) simp
  then have xn: "x \<le> real n - real n / 2 ^ 53" by (simp add: x_def algebra_simps)
  have n1: "1 \<le> real n" using assms(3) by simp
  define e where "e = max (exponent x) (- 1022)"
  define q :: real where "q = 2 powi (e - 52)"
  have q0: "0 < q" by (simp add: q_def)
  have "2 powi exponent x \<le> x" using exponent_bounds(1)[of x] x0 by simp
  also have "x < real n"
  proof -
    have "0 < real n / 2 ^ 53" using assms(3) by simp
    with xn show ?thesis by linarith
  qed
  finally have a: "2 powi exponent x < real n" .
  have "(2::real) powi (- 1022) < 2 powi 0" by (rule power_int_strict_increasing) simp_all
  then have b: "(2::real) powi (- 1022) < real n" using n1 by simp
  have en: "2 powi e < real n" using a b by (simp add: e_def max_def)
  have "real n < 2 ^ 53" using assms(4)
    by (metis of_int_less_iff of_int_numeral of_int_of_nat_eq of_int_power)
  then have "(2::real) powi e < 2 powi 53" using en by simp
  then have e52: "e < 53" by (rule power_int_le_imp_less_exp[rotated]) simp_all
  define m where "m = nat (52 - e)"
  have q: "q = 1 / 2 ^ m"
  proof -
    have "e - 52 = - int m" using e52 by (simp add: m_def)
    then show ?thesis unfolding q_def
      by (simp only: power_int_minus power_int_of_nat) (simp add: field_simps)
  qed
  have "q = 2 powi e / 2 powi 52" unfolding q_def by (rule power_int_diff) simp
  then have qe: "q * 2 ^ 52 = 2 powi e" by simp
  have "q / 2 = 2 powi e / 2 ^ 53" using qe by (simp add: field_simps)
  also have "\<dots> < real n / 2 ^ 53" using en by (simp add: divide_strict_right_mono)
  finally have "x < real n - q / 2" using xn by linarith
  then have "x / q < (real n - q / 2) / q" using q0 by (simp add: divide_strict_right_mono)
  also have "\<dots> = real n / q - 1 / 2" using q0 by (simp add: field_simps)
  also have "real n / q = of_int (int n * 2 ^ m)" by (simp add: q)
  finally have "round_even (x / q) \<le> int n * 2 ^ m - 1" by (rule round_even_less)
  then have "real_of_int (round_even (x / q)) \<le> of_int (int n * 2 ^ m - 1)"
    by (simp only: of_int_le_iff)
  then have "of_int (round_even (x / q)) * q \<le> of_int (int n * 2 ^ m - 1) * q"
    using q0 by (simp add: mult_right_mono)
  also have "\<dots> = real n - q" by (simp add: q field_simps)
  also have "\<dots> < real n" using q0 by simp
  finally show ?thesis
    using False by (simp add: round_double_def Let_def x_def e_def q_def)
qed

lemma double_mul_nonpos: "a \<le> 0 \<Longrightarrow> 0 \<le> b \<Longrightarrow> double_mul a b \<le> 0"
  unfolding double_mul_def by (rule round_double_nonpos) (simp add: mult_nonpos_nonneg)

section \<open>The particle count\<close>

lemma for_loop_preserves:
  assumes "\<And>i s. P s \<Longrightarrow> P (body i s)" and "P st"
  shows "P (for_loop n i body st)"
  using assms(2) by (induction n arbitrary: i st) (simp_all add: assms(1))

lemma layout_body_frame:
  "N (layout_body f i st) = N st"
  "W (layout_body f i st) = W st"
  "H (layout_body f i st) = H st"
  "baseDensity (layout_body f i st) = baseDensity st"
  "t (layout_body f i st) = t st"
  "stats (layout_body f i st) = stats st"
  "onStats (layout_body f i st) = onStats st"
  by (cases f; simp add: template_body_def vortex_body_def swirl_body_def orbit_body_def Let_def)+

lemma for_loop_layout_N: "N (for_loop n i (layout_body f) st) = N st"
  by (rule for_loop_preserves[where P="\<lambda>s. N s = N st"]) (simp_all add: layout_body_frame)

lemma emit_N [simp]: "N (emit ev st) = N st"
  by (simp add: emit_def)

lemma allocate_N [simp]: "N (allocate f a st) = N st"
  by (cases f) simp_all

lemma target_count_Num:
  "baseDensity st = Num d \<Longrightarrow>
   target_count f st =
     Num (of_int (min (maxPoints f)
                    (max (minPoints f) \<lfloor>double_mul (double_mul d (real (W st))) (real (H st))\<rfloor>)))"
  by (simp add: target_count_def)

lemma bounds_ordered: "0 < minPoints f" "minPoints f \<le> maxPoints f" "maxPoints f \<le> 120000"
  by (cases f; simp)+

lemma new_array_count:
  "0 \<le> k \<Longrightarrow> k \<le> 120000 \<Longrightarrow> new_Float32Array z (Num (of_int k)) = Inr (replicate (nat k) z)"
  by (simp add: new_Float32Array_def Let_def)

lemma unchanged_N: "unchanged f target st \<Longrightarrow> N st = target"
  by (cases f; cases target; cases "N st"; simp)

lemma early_return_N [simp]: "N (early_return f st) = N st"
  by (cases f) simp_all

lemma rebuild_N:
  assumes "baseDensity st = Num d"
  shows "\<exists>st'. rebuildPointField f st = Inr st' \<and> N st' = target_count f st"
proof -
  let ?k = "min (maxPoints f)
              (max (minPoints f) \<lfloor>double_mul (double_mul d (real (W st))) (real (H st))\<rfloor>)"
  have tc: "target_count f st = Num (of_int ?k)" using assms by (rule target_count_Num)
  have k: "0 \<le> ?k" "?k \<le> 120000" using bounds_ordered[of f] by auto
  show ?thesis
  proof (cases "unchanged f (target_count f st) st")
    case True
    then show ?thesis by (simp add: rebuildPointField_def unchanged_N)
  next
    case False
    have "new_Float32Array (0::real) (target_count f st) = Inr (replicate (nat ?k) 0)"
      unfolding tc using k by (rule new_array_count)
    with False show ?thesis
      by (simp add: rebuildPointField_def Let_def for_loop_layout_N)
  qed
qed

text \<open>
  Claim C1. For each of the four point fields, every numeric density \<open>d\<close> and every
  viewport, \<open>rebuildPointField\<close> returns without error and leaves the particle count
  \<open>N\<close> equal to \<open>clamp(floor(d * W * H), minPoints, maxPoints)\<close> for the bounds of the
  field, where \<open>d * W * H\<close> is the product the program computes, in doubles and from
  left to right; the count lies between the bounds, and it is \<open>floor(d * W * H)\<close>
  itself whenever that value lies between them.
\<close>

theorem rebuild_count_clamped:
  assumes "baseDensity st = Num d"
  shows "let n = \<lfloor>double_mul (double_mul d (real (W st))) (real (H st))\<rfloor>;
             c = clamp_spec n (minPoints f) (maxPoints f)
         in (\<exists>st'. rebuildPointField f st = Inr st' \<and> N st' = Num (of_int c))
            \<and> minPoints f \<le> c \<and> c \<le> maxPoints f
            \<and> (minPoints f \<le> n \<and> n \<le> maxPoints f \<longrightarrow> c = n)"
proof -
  let ?n = "\<lfloor>double_mul (double_mul d (real (W st))) (real (H st))\<rfloor>"
  have eq: "clamp_spec ?n (minPoints f) (maxPoints f) = min (maxPoints f) (max (minPoints f) ?n)"
    using bounds_ordered(2)[of f] by (simp add: clamp_spec_def min_def max_def)
  from rebuild_N[OF assms, of f] target_count_Num[OF assms, of f]
  have "\<exists>st'. rebuildPointField f st = Inr st' \<and> N st' = Num (of_int (clamp_spec ?n (minPoints f) (maxPoints f)))"
    by (simp only: eq)
  moreover have "minPoints f \<le> clamp_spec ?n (minPoints f) (maxPoints f)"
    "clamp_spec ?n (minPoints f) (maxPoints f) \<le> maxPoints f"
    "minPoints f \<le> ?n \<and> ?n \<le> maxPoints f \<longrightarrow> clamp_spec ?n (minPoints f) (maxPoints f) = ?n"
    using bounds_ordered(2)[of f] by (auto simp: clamp_spec_def)
  ultimately show ?thesis by (simp add: Let_def)
qed


text \<open>
  The witness is the template field in a window of 800 by 600 with the slider at 0.013.
  The density is the double nearest to 0.013; the program computes \<open>d * 800 = 10.4\<close>
  and \<open>10.4 * 600 = 6240\<close> after rounding, and the count is 6240, although the exact
  product of the three numbers is below 6240.
\<close>

theorem rebuild_count_clamped_witness:
  "let st = (initial TemplateField (ui_state 1 0.013 1 False) True 0 (\<lambda>i. 0))\<lparr>W := 800, H := 600\<rparr>
   in baseDensity st = Num (round_double 0.013)
      \<and> round_double 0.013 = 7493989779944505 / 2 ^ 59
      \<and> (\<exists>st'. rebuildPointField TemplateField st = Inr st' \<and> N st' = Num 6240)
      \<and> minPoints TemplateField \<le> 6240 \<and> 6240 \<le> maxPoints TemplateField
      \<and> \<lfloor>round_double 0.013 * 800 * 600\<rfloor> = 6239"
proof -
  have n: "\<lfloor>double_mul (double_mul (round_double 0.013) 800) 600\<rfloor> = 6240"
    and e: "\<lfloor>round_double 0.013 * 800 * 600\<rfloor> = 6239"
    and r: "round_double 0.013 = 7493989779944505 / 2 ^ 59"
    by code_simp+
  show ?thesis
    using rebuild_count_clamped
      [of "(initial TemplateField (ui_state 1 0.013 1 False) True 0 (\<lambda>i. 0))\<lparr>W := 800, H := 600\<rparr>"
        "round_double 0.013" TemplateField]
      n e r
    by (simp add: initial_def ui_state_def clamp_spec_def Let_def)
qed

section \<open>What a rebuild keeps\<close>

lemma kept_refl [simp]: "kept st st" by (simp add: kept_def)

lemma kept_trans: "kept a b \<Longrightarrow> kept b c \<Longrightarrow> kept a c" by (simp add: kept_def)

lemma layout_body_kept: "kept st s \<Longrightarrow> kept st (layout_body f i s)"
  by (cases f; simp add: kept_def template_body_def vortex_body_def swirl_body_def orbit_body_def Let_def)

lemma for_loop_layout_kept: "kept st (for_loop n i (layout_body f) st)"
  by (rule for_loop_preserves[where P="kept st"]) (simp_all add: layout_body_kept)

lemma emit_kept: "kept st s \<Longrightarrow> kept st (emit ev s)"
  by (simp add: kept_def emit_def)

lemma allocate_kept: "kept st s \<Longrightarrow> kept st (allocate f a s)"
  by (cases f; simp add: kept_def)

lemma early_return_kept: "kept st (early_return f st)"
  by (cases f; simp add: emit_kept)

lemma target_count_cases:
  "target_count f st = NaN \<or>
   (\<exists>k. minPoints f \<le> k \<and> k \<le> maxPoints f \<and> target_count f st = Num (of_int k))"
proof (cases "baseDensity st")
  case (Num d)
  have "minPoints f \<le> min (maxPoints f)
          (max (minPoints f) \<lfloor>double_mul (double_mul d (real (W st))) (real (H st))\<rfloor>)"
    using bounds_ordered(2)[of f] by simp
  then show ?thesis using target_count_Num[OF Num, of f] by (intro disjI2 exI conjI) auto
next
  case NaN
  then show ?thesis by (simp add: target_count_def)
qed

lemma new_array_target:
  "\<exists>a. new_Float32Array (z::'a) (target_count f st) = Inr a \<and> length a = loop_bound (target_count f st)
       \<and> a = replicate (loop_bound (target_count f st)) z"
  using target_count_cases[of f st]
proof
  assume "target_count f st = NaN"
  then show ?thesis by (simp add: new_Float32Array_def)
next
  assume "\<exists>k. minPoints f \<le> k \<and> k \<le> maxPoints f \<and> target_count f st = Num (of_int k)"
  then obtain k where k: "minPoints f \<le> k" "k \<le> maxPoints f" "target_count f st = Num (of_int k)"
    by blast
  then have "0 \<le> k" "k \<le> 120000" using bounds_ordered[of f] by auto
  then show ?thesis using k(3) by (simp add: new_array_count)
qed

lemma rebuild_total:
  "\<exists>st'. rebuildPointField f st = Inr st' \<and> N st' = target_count f st \<and> kept st st'"
proof (cases "unchanged f (target_count f st) st")
  case True
  then show ?thesis by (simp add: rebuildPointField_def unchanged_N early_return_kept)
next
  case False
  obtain a where a: "new_Float32Array (0::real) (target_count f st) = Inr a"
    using new_array_target[of "0::real" f st] by blast
  have "kept st (allocate f a (st\<lparr>N := target_count f st\<rparr>))"
    by (rule allocate_kept) (simp add: kept_def)
  then have "kept st (for_loop (loop_bound (target_count f st)) 0 (layout_body f)
                  (allocate f a (st\<lparr>N := target_count f st\<rparr>)))"
    using for_loop_layout_kept kept_trans by blast
  with False a show ?thesis
    by (simp add: rebuildPointField_def Let_def for_loop_layout_N emit_kept)
qed


section \<open>Logical time\<close>

lemma frame_dt_pos: "0 < frame_dt now lst"
  by (simp add: frame_dt_def)

lemma frame_dt_gap: "0.1 \<le> now - lst \<Longrightarrow> frame_dt now lst = (now - lst) / 1000"
  by (simp add: frame_dt_def)

lemma tick_fields:
  "t (tick f now st) = t st + frame_dt now (last_ts st) * speed st * speedScale f"
  "zoomPhase (tick f now st) = zoomPhase st + (if zoomAuto st then frame_dt now (last_ts st) else 0)"
  "last_ts (tick f now st) = now"
  "speed (tick f now st) = speed st"
  "running (tick f now st) = running st"
  by (cases f; simp add: emit_def Let_def)+

lemma loop_fields:
  assumes "running st"
  shows "t (loop f now st) = t st + frame_dt now (last_ts st) * speed st * speedScale f"
    and "zoomPhase (loop f now st) = zoomPhase st + (if zoomAuto st then frame_dt now (last_ts st) else 0)"
    and "last_ts (loop f now st) = now"
    and "speed (loop f now st) = speed st"
    and "running (loop f now st)"
  using assms by (simp_all add: loop_def request_frame_def tick_fields)

lemma run_frames_t:
  "running st \<Longrightarrow>
   t (run_frames f nows st) = t st + sum_list (frame_dts (last_ts st) nows) * speed st * speedScale f"
proof (induction nows arbitrary: st)
  case Nil
  then show ?case by simp
next
  case (Cons now nows)
  from Cons.prems have r: "running (loop f now st)" by (rule loop_fields(5))
  show ?case
    using Cons.IH[OF r] Cons.prems
    by (simp add: loop_fields algebra_simps)
qed

lemma sum_frame_dts:
  "steps_ok lst nows \<Longrightarrow> sum_list (frame_dts lst nows) = (final_ts lst nows - lst) / 1000"
  by (induction nows arbitrary: lst) (simp_all add: frame_dt_gap field_simps)

text \<open>
  Claim C2, as amended. In a run of frames of a running point field with a fixed speed,
  logical time advances by \<open>speed * speedScale\<close> times the sum of the \<open>dt\<close> of the
  frames, so the update is additive in \<open>dt\<close>. When every frame comes at least a tenth
  of a millisecond after the one before, the sum of the \<open>dt\<close> is the elapsed time, and
  the advance depends on the elapsed time only, not on how the frames divide it: sixteen
  frames of 1/240 s advance \<open>t\<close> as one frame of 1/15 s does.
\<close>

theorem loop_time_additive:
  assumes "running st"
  shows "t (run_frames f nows st) =
           t st + sum_list (frame_dts (last_ts st) nows) * speed st * speedScale f
         \<and> (steps_ok (last_ts st) nows \<longrightarrow>
              t (run_frames f nows st) =
                t st + (final_ts (last_ts st) nows - last_ts st) / 1000 * speed st * speedScale f)"
  using run_frames_t[OF assms, of f nows] by (simp add: sum_frame_dts)

theorem loop_time_additive_witness:
  "running template_created
   \<and> steps_ok (last_ts template_created)
        [25/6, 25/3, 25/2, 50/3, 125/6, 25, 175/6, 100/3, 75/2, 125/3, 275/6, 50, 325/6, 175/3,
         125/2, 200/3]
   \<and> t (run_frames TemplateField
          [25/6, 25/3, 25/2, 50/3, 125/6, 25, 175/6, 100/3, 75/2, 125/3, 275/6, 50, 325/6, 175/3,
           125/2, 200/3] template_created) = 4
   \<and> steps_ok (last_ts template_created) [200/3]
   \<and> t (run_frames TemplateField [200/3] template_created) = 4"
  using loop_time_additive[of template_created TemplateField
      "[25/6, 25/3, 25/2, 50/3, 125/6, 25, 175/6, 100/3, 75/2, 125/3, 275/6, 50, 325/6, 175/3,
        125/2, 200/3]"]
    loop_time_additive[of template_created TemplateField "[200/3]"]
  by (simp add: template_created_def)

text \<open>
  Claim C2 as stated fails for steps shorter than the floor of \<open>dt\<close>: two frames 0.05 ms
  apart advance \<open>t\<close> twice as far as one frame after 0.1 ms, though both runs divide
  the same elapsed time into positive steps.
\<close>

theorem loop_partition_counterexample:
  "t (run_frames TemplateField [0.05, 0.1] template_created) = 0.012
   \<and> t (run_frames TemplateField [0.1] template_created) = 0.006"
  using run_frames_t[of template_created TemplateField "[0.05, 0.1]"]
    run_frames_t[of template_created TemplateField "[0.1]"]
  by (simp add: template_created_def frame_dt_def)

text \<open>
  Claim C3. While \<open>running\<close> is false, \<open>loop\<close> changes nothing, so neither \<open>t\<close>
  nor \<open>zoomPhase\<close> advances; \<open>pause\<close> and \<open>play\<close> leave both as they are; and
  the first frame after a resume at time \<open>p\<close> advances them by the \<open>dt\<close> measured
  from \<open>p\<close>, whatever the timestamp of the last frame before the pause was.
\<close>

theorem pause_resume_exact:
  "(\<not> running st \<longrightarrow> loop f now st = st)
   \<and> t (pause st) = t st \<and> zoomPhase (pause st) = zoomPhase st
   \<and> t (play p (pause st)) = t st \<and> zoomPhase (play p (pause st)) = zoomPhase st
   \<and> t (loop f now (play p (pause st))) = t st + frame_dt now p * speed st * speedScale f
   \<and> zoomPhase (loop f now (play p (pause st))) =
       zoomPhase st + (if zoomAuto st then frame_dt now p else 0)"
  by (simp add: loop_def play_def pause_def request_frame_def tick_fields Let_def)


theorem pause_resume_exact_witness:
  "\<not> running (pause (loop TemplateField 16 template_created))
   \<and> loop TemplateField 500000 (pause (loop TemplateField 16 template_created)) =
       pause (loop TemplateField 16 template_created)
   \<and> t (loop TemplateField 16 template_created) = 0.96
   \<and> t (loop TemplateField 1000016 (play 1000000 (pause (loop TemplateField 16 template_created))))
       = 1.92"
proof -
  let ?s1 = "loop TemplateField 16 template_created"
  have r: "running template_created" by (simp add: template_created_def)
  have np: "\<not> running (pause ?s1)" by (simp add: pause_def Let_def)
  have t1: "t ?s1 = 0.96"
    using loop_fields(1)[OF r, of TemplateField 16] by (simp add: template_created_def frame_dt_def)
  have sp: "speed ?s1 = 1"
    using loop_fields(4)[OF r, of TemplateField 16] by (simp add: template_created_def)
  have idle: "loop TemplateField 500000 (pause ?s1) = pause ?s1"
    using pause_resume_exact[where st = "pause ?s1" and f = TemplateField and now = 500000 and p = 0]
      np by blast
  have "t (loop TemplateField 1000016 (play 1000000 (pause ?s1))) =
          t ?s1 + frame_dt 1000016 1000000 * speed ?s1 * speedScale TemplateField"
    using pause_resume_exact[where st = ?s1 and f = TemplateField and now = 1000016
        and p = 1000000] by blast
  then have "t (loop TemplateField 1000016 (play 1000000 (pause ?s1))) = 1.92"
    by (simp add: t1 sp frame_dt_def)
  with np idle t1 show ?thesis by simp
qed

section \<open>Rebuilds, parameters and reset\<close>

lemma fill_step:
  assumes "i < length xs"
  shows "take (Suc i) (xs[i := g i]) @ map g [Suc i..<Suc i + n] @ drop (Suc i + n) (xs[i := g i])
         = take i xs @ map g [i..<i + Suc n] @ drop (i + Suc n) xs"
proof -
  have a: "take (Suc i) (xs[i := g i]) = take i xs @ [g i]"
    using assms by (simp add: take_Suc_conv_app_nth)
  have b: "drop (Suc i + n) (xs[i := g i]) = drop (i + Suc n) xs"
    by simp
  have c: "[i..<i + Suc n] = i # [Suc i..<Suc i + n]"
    by (simp add: upt_conv_Cons)
  show ?thesis unfolding a b c by simp
qed

lemma for_loop_orbit:
  "i + n \<le> length (xVals st) \<Longrightarrow> i + n \<le> length (yVals st) \<Longrightarrow>
   for_loop n i orbit_body st =
     st\<lparr>xVals := take i (xVals st) @ map (\<lambda>j. real ((j + 1) mod 200)) [i..<i + n]
                    @ drop (i + n) (xVals st),
        yVals := take i (yVals st) @ map (\<lambda>j. real (j + 1) / 43) [i..<i + n]
                    @ drop (i + n) (yVals st)\<rparr>"
proof (induction n arbitrary: i st)
  case 0
  then show ?case by simp
next
  case (Suc n)
  let ?s = "orbit_body i st"
  have len: "length (xVals ?s) = length (xVals st)" "length (yVals ?s) = length (yVals st)"
    by (simp_all add: orbit_body_def Let_def)
  have ix: "i < length (xVals st)" "i < length (yVals st)" using Suc.prems by simp_all
  have "for_loop (Suc n) i orbit_body st = for_loop n (Suc i) orbit_body ?s" by simp
  also have "\<dots> = ?s\<lparr>xVals := take (Suc i) (xVals ?s) @ map (\<lambda>j. real ((j + 1) mod 200)) [Suc i..<Suc i + n]
                    @ drop (Suc i + n) (xVals ?s),
        yVals := take (Suc i) (yVals ?s) @ map (\<lambda>j. real (j + 1) / 43) [Suc i..<Suc i + n]
                    @ drop (Suc i + n) (yVals ?s)\<rparr>"
    using Suc.prems by (intro Suc.IH) (simp_all add: len)
  also have "\<dots> = st\<lparr>xVals := take i (xVals st) @ map (\<lambda>j. real ((j + 1) mod 200)) [i..<i + Suc n]
                    @ drop (i + Suc n) (xVals st),
        yVals := take i (yVals st) @ map (\<lambda>j. real (j + 1) / 43) [i..<i + Suc n]
                    @ drop (i + Suc n) (yVals st)\<rparr>"
    using fill_step[OF ix(1), of "\<lambda>j. real ((j + 1) mod 200)" n]
      fill_step[OF ix(2), of "\<lambda>j. real (j + 1) / 43" n]
    by (simp add: orbit_body_def Let_def)
  finally show ?case .
qed

lemma for_loop_orbit_all:
  assumes "length (xVals st) = n" "length (yVals st) = n"
  shows "for_loop n 0 orbit_body st = st\<lparr>xVals := orbit_xs n, yVals := orbit_ys n\<rparr>"
  using for_loop_orbit[of 0 n st] assms by (simp add: orbit_xs_def orbit_ys_def)

lemma replicate_update_same: "(replicate m x)[i := x] = replicate m x"
  by (induction m arbitrary: i) (simp_all split: nat.split)

lemma for_loop_template_zero:
  "rng st = (\<lambda>i. 0) \<Longrightarrow> xVals st = replicate m 0 \<Longrightarrow> yVals st = replicate m 0 \<Longrightarrow>
   for_loop n i template_body st = st\<lparr>rngPos := rngPos st + 2 * n\<rparr>"
proof (induction n arbitrary: i st)
  case 0
  then show ?case by simp
next
  case (Suc n)
  have b: "template_body i st = st\<lparr>rngPos := rngPos st + 2\<rparr>"
    using Suc.prems by (simp add: template_body_def Let_def replicate_update_same)
  show ?case
    using Suc.IH[of "st\<lparr>rngPos := rngPos st + 2\<rparr>" "Suc i"] Suc.prems
    by (simp add: b)
qed

lemma to_index_6000: "to_index (Num 6000) = Inr 6000"
  by (simp add: Let_def)

lemma count_800_600:
  "double_mul (double_mul (round_double 0.005) 800) 600 = 2400"
  "double_mul (double_mul (round_double 0.05) 800) 600 = 24000"
  by code_simp+

lemma created_orbit:
  "createAnimation OrbitField (ui_state s 0.005 z a) True True 0 0 800 600 (\<lambda>i. 0)
     = Inr (orbit_created s z a)"
  using count_800_600(1)
  by (simp add: createAnimation_def fitCanvas_def initial_def ui_state_def rebuildPointField_def
      target_count_def new_Float32Array_def to_index_6000
      for_loop_orbit_all Let_def emit_def
      setParams_def set_speed_def set_density_def set_zoom_def set_zoomAuto_def play_def
      request_frame_def orbit_created_def)

lemma created_template:
  "createAnimation TemplateField (ui_state 1 0.005 1 False) True True 0 0 800 600 (\<lambda>i. 0)
     = Inr template_created"
  using count_800_600(1)
  by (simp add: createAnimation_def fitCanvas_def initial_def ui_state_def rebuildPointField_def
      target_count_def new_Float32Array_def to_index_6000
      for_loop_template_zero[where m = 6000]
      Let_def emit_def
      setParams_def set_speed_def set_density_def set_zoom_def set_zoomAuto_def play_def
      request_frame_def template_created_def)


lemma layout_body_lengths:
  "length (xVals (layout_body f i st)) = length (xVals st)"
  "length (yVals (layout_body f i st)) = length (yVals st)"
  "length (sVals (layout_body f i st)) = length (sVals st)"
  by (cases f; simp add: template_body_def vortex_body_def swirl_body_def orbit_body_def Let_def)+

lemma for_loop_layout_stats:
  "stats (for_loop n i (layout_body f) st) = stats st"
  by (rule for_loop_preserves[where P="\<lambda>s. stats s = stats st"]) (simp_all add: layout_body_frame)

lemma for_loop_layout_onStats:
  "onStats (for_loop n i (layout_body f) st) = onStats st"
  by (rule for_loop_preserves[where P="\<lambda>s. onStats s = onStats st"]) (simp_all add: layout_body_frame)

lemma allocate_stats [simp]:
  "stats (allocate f a st) = stats st" "onStats (allocate f a st) = onStats st"
  by (cases f; simp)+

text \<open>The branch that regenerates reports the new count once.\<close>

lemma rebuild_regenerates:
  assumes "\<not> unchanged f (target_count f st) st" and "onStats st"
  shows "\<exists>st'. rebuildPointField f st = Inr st' \<and> stats st' = stats st @ [Points (target_count f st)]"
proof -
  obtain a where a: "new_Float32Array (0::real) (target_count f st) = Inr a"
    using new_array_target[of "0::real" f st] by blast
  show ?thesis
    using assms a
    by (simp add: rebuildPointField_def Let_def for_loop_layout_N for_loop_layout_stats
        for_loop_layout_onStats emit_def)
qed

lemma unchanged_strict_eq: "unchanged f target st \<Longrightarrow> js_strict_eq target (N st)"
  by (cases f) simp_all

lemma js_strict_eq_sym: "js_strict_eq a b = js_strict_eq b a"
  by (cases a; cases b) auto

lemma set_density_only:
  "setParams f (density_only d) st = rebuildPointField f (st\<lparr>baseDensity := d\<rparr>)"
  by (simp add: setParams_def density_only_def set_speed_def set_density_def set_zoom_def
      set_zoomAuto_def split: sum.splits)

lemma for_loop_template:
  "i + n \<le> length (xVals st) \<Longrightarrow> i + n \<le> length (yVals st) \<Longrightarrow> rngPos st = b + 2 * i \<Longrightarrow>
   for_loop n i template_body st =
     st\<lparr>xVals := take i (xVals st)
                    @ map (\<lambda>j. sqrt (rng st (b + 2 * j)) * cos (2 * pi * rng st (b + 2 * j + 1))) [i..<i + n]
                    @ drop (i + n) (xVals st),
        yVals := take i (yVals st)
                    @ map (\<lambda>j. sqrt (rng st (b + 2 * j)) * sin (2 * pi * rng st (b + 2 * j + 1))) [i..<i + n]
                    @ drop (i + n) (yVals st),
        rngPos := b + 2 * (i + n)\<rparr>"
proof (induction n arbitrary: i st)
  case 0
  then show ?case using "0.prems"(3)[symmetric] by simp
next
  case (Suc n)
  let ?gx = "\<lambda>j. sqrt (rng st (b + 2 * j)) * cos (2 * pi * rng st (b + 2 * j + 1))"
  let ?gy = "\<lambda>j. sqrt (rng st (b + 2 * j)) * sin (2 * pi * rng st (b + 2 * j + 1))"
  let ?s = "template_body i st"
  have s: "?s = st\<lparr>xVals := (xVals st)[i := ?gx i], yVals := (yVals st)[i := ?gy i],
                   rngPos := b + 2 * Suc i\<rparr>"
    using Suc.prems(3) by (simp add: template_body_def Let_def)
  have ix: "i < length (xVals st)" "i < length (yVals st)" using Suc.prems by simp_all
  have "for_loop (Suc n) i template_body st = for_loop n (Suc i) template_body ?s" by simp
  also have "\<dots> = ?s\<lparr>xVals := take (Suc i) (xVals ?s) @ map ?gx [Suc i..<Suc i + n]
                    @ drop (Suc i + n) (xVals ?s),
        yVals := take (Suc i) (yVals ?s) @ map ?gy [Suc i..<Suc i + n]
                    @ drop (Suc i + n) (yVals ?s),
        rngPos := b + 2 * (Suc i + n)\<rparr>"
    using Suc.IH[of "Suc i" ?s] Suc.prems by (simp add: s)
  also have "\<dots> = st\<lparr>xVals := take i (xVals st) @ map ?gx [i..<i + Suc n]
                    @ drop (i + Suc n) (xVals st),
        yVals := take i (yVals st) @ map ?gy [i..<i + Suc n]
                    @ drop (i + Suc n) (yVals st),
        rngPos := b + 2 * (i + Suc n)\<rparr>"
    using fill_step[OF ix(1), of ?gx n] fill_step[OF ix(2), of ?gy n]
    by (simp add: s)
  finally show ?case .
qed

lemma for_loop_vortex:
  "i + n \<le> length (xVals st) \<Longrightarrow> i + n \<le> length (yVals st) \<Longrightarrow> rngPos st = b + 2 * i \<Longrightarrow>
   for_loop n i vortex_body st =
     st\<lparr>xVals := take i (xVals st)
                    @ map (\<lambda>j. (1 - (1 - rng st (b + 2 * j)) powr 1.6) * cos (2 * pi * rng st (b + 2 * j + 1))) [i..<i + n]
                    @ drop (i + n) (xVals st),
        yVals := take i (yVals st)
                    @ map (\<lambda>j. (1 - (1 - rng st (b + 2 * j)) powr 1.6) * sin (2 * pi * rng st (b + 2 * j + 1))) [i..<i + n]
                    @ drop (i + n) (yVals st),
        rngPos := b + 2 * (i + n)\<rparr>"
proof (induction n arbitrary: i st)
  case 0
  then show ?case using "0.prems"(3)[symmetric] by simp
next
  case (Suc n)
  let ?gx = "\<lambda>j. (1 - (1 - rng st (b + 2 * j)) powr 1.6) * cos (2 * pi * rng st (b + 2 * j + 1))"
  let ?gy = "\<lambda>j. (1 - (1 - rng st (b + 2 * j)) powr 1.6) * sin (2 * pi * rng st (b + 2 * j + 1))"
  let ?s = "vortex_body i st"
  have s: "?s = st\<lparr>xVals := (xVals st)[i := ?gx i], yVals := (yVals st)[i := ?gy i],
                   rngPos := b + 2 * Suc i\<rparr>"
    using Suc.prems(3) by (simp add: vortex_body_def Let_def)
  have ix: "i < length (xVals st)" "i < length (yVals st)" using Suc.prems by simp_all
  have "for_loop (Suc n) i vortex_body st = for_loop n (Suc i) vortex_body ?s" by simp
  also have "\<dots> = ?s\<lparr>xVals := take (Suc i) (xVals ?s) @ map ?gx [Suc i..<Suc i + n]
                    @ drop (Suc i + n) (xVals ?s),
        yVals := take (Suc i) (yVals ?s) @ map ?gy [Suc i..<Suc i + n]
                    @ drop (Suc i + n) (yVals ?s),
        rngPos := b + 2 * (Suc i + n)\<rparr>"
    using Suc.IH[of "Suc i" ?s] Suc.prems by (simp add: s)
  also have "\<dots> = st\<lparr>xVals := take i (xVals st) @ map ?gx [i..<i + Suc n]
                    @ drop (i + Suc n) (xVals st),
        yVals := take i (yVals st) @ map ?gy [i..<i + Suc n]
                    @ drop (i + Suc n) (yVals st),
        rngPos := b + 2 * (i + Suc n)\<rparr>"
    using fill_step[OF ix(1), of ?gx n] fill_step[OF ix(2), of ?gy n]
    by (simp add: s)
  finally show ?case .
qed

lemma for_loop_swirl:
  "i + n \<le> length (sVals st) \<Longrightarrow> i + n \<le> length (theta0Vals st) \<Longrightarrow>
   i + n \<le> length (radiusVals st) \<Longrightarrow> rngPos st = b + 3 * i \<Longrightarrow>
   for_loop n i swirl_body st =
     st\<lparr>sVals := take i (sVals st) @ map (\<lambda>j. rng st (b + 3 * j)) [i..<i + n]
                    @ drop (i + n) (sVals st),
        theta0Vals := take i (theta0Vals st) @ map (\<lambda>j. 1.2 * pi * rng st (b + 3 * j + 1)) [i..<i + n]
                    @ drop (i + n) (theta0Vals st),
        radiusVals := take i (radiusVals st)
                    @ map (\<lambda>j. (0.45 * (1 - rng st (b + 3 * j)) powr 1.7 + 0.04)
                              + (rng st (b + 3 * j + 2) - 0.5) * 0.05
                                * (0.45 * (1 - rng st (b + 3 * j)) powr 1.7 + 0.04)) [i..<i + n]
                    @ drop (i + n) (radiusVals st),
        rngPos := b + 3 * (i + n)\<rparr>"
proof (induction n arbitrary: i st)
  case 0
  then show ?case using "0.prems"(4)[symmetric] by simp
next
  case (Suc n)
  let ?gs = "\<lambda>j. rng st (b + 3 * j)"
  let ?gt = "\<lambda>j. 1.2 * pi * rng st (b + 3 * j + 1)"
  let ?gr = "\<lambda>j. (0.45 * (1 - rng st (b + 3 * j)) powr 1.7 + 0.04)
                  + (rng st (b + 3 * j + 2) - 0.5) * 0.05
                    * (0.45 * (1 - rng st (b + 3 * j)) powr 1.7 + 0.04)"
  let ?s = "swirl_body i st"
  have s: "?s = st\<lparr>sVals := (sVals st)[i := ?gs i], theta0Vals := (theta0Vals st)[i := ?gt i],
                   radiusVals := (radiusVals st)[i := ?gr i], rngPos := b + 3 * Suc i\<rparr>"
    using Suc.prems(4) by (simp add: swirl_body_def Let_def)
  have ix: "i < length (sVals st)" "i < length (theta0Vals st)" "i < length (radiusVals st)"
    using Suc.prems by simp_all
  have "for_loop (Suc n) i swirl_body st = for_loop n (Suc i) swirl_body ?s" by simp
  also have "\<dots> = ?s\<lparr>sVals := take (Suc i) (sVals ?s) @ map ?gs [Suc i..<Suc i + n]
                    @ drop (Suc i + n) (sVals ?s),
        theta0Vals := take (Suc i) (theta0Vals ?s) @ map ?gt [Suc i..<Suc i + n]
                    @ drop (Suc i + n) (theta0Vals ?s),
        radiusVals := take (Suc i) (radiusVals ?s) @ map ?gr [Suc i..<Suc i + n]
                    @ drop (Suc i + n) (radiusVals ?s),
        rngPos := b + 3 * (Suc i + n)\<rparr>"
    using Suc.IH[of "Suc i" ?s] Suc.prems by (simp add: s)
  also have "\<dots> = st\<lparr>sVals := take i (sVals st) @ map ?gs [i..<i + Suc n]
                    @ drop (i + Suc n) (sVals st),
        theta0Vals := take i (theta0Vals st) @ map ?gt [i..<i + Suc n]
                    @ drop (i + Suc n) (theta0Vals st),
        radiusVals := take i (radiusVals st) @ map ?gr [i..<i + Suc n]
                    @ drop (i + Suc n) (radiusVals st),
        rngPos := b + 3 * (i + Suc n)\<rparr>"
    using fill_step[OF ix(1), of ?gs n] fill_step[OF ix(2), of ?gt n] fill_step[OF ix(3), of ?gr n]
    by (simp add: s)
  finally show ?case .
qed

lemma for_loop_template_all:
  assumes "length (xVals st) = n" "length (yVals st) = n"
  shows "for_loop n 0 template_body st =
           st\<lparr>xVals := template_xs (rng st) (rngPos st) n,
              yVals := template_ys (rng st) (rngPos st) n, rngPos := rngPos st + 2 * n\<rparr>"
  using for_loop_template[of 0 n st "rngPos st"] assms
  by (simp add: template_xs_def template_ys_def)

lemma for_loop_vortex_all:
  assumes "length (xVals st) = n" "length (yVals st) = n"
  shows "for_loop n 0 vortex_body st =
           st\<lparr>xVals := vortex_xs (rng st) (rngPos st) n,
              yVals := vortex_ys (rng st) (rngPos st) n, rngPos := rngPos st + 2 * n\<rparr>"
  using for_loop_vortex[of 0 n st "rngPos st"] assms
  by (simp add: vortex_xs_def vortex_ys_def)

lemma for_loop_swirl_all:
  assumes "length (sVals st) = n" "length (theta0Vals st) = n" "length (radiusVals st) = n"
  shows "for_loop n 0 swirl_body st =
           st\<lparr>sVals := swirl_ss (rng st) (rngPos st) n,
              theta0Vals := swirl_thetas (rng st) (rngPos st) n,
              radiusVals := swirl_radii (rng st) (rngPos st) n, rngPos := rngPos st + 3 * n\<rparr>"
  using for_loop_swirl[of 0 n st "rngPos st"] assms
  by (simp add: swirl_ss_def swirl_thetas_def swirl_radii_def)

text \<open>The branch that regenerates lays out every array of the field afresh.\<close>

lemma rebuild_regenerated:
  assumes "\<not> unchanged f (target_count f st) st"
  shows "\<exists>st'. rebuildPointField f st = Inr st'
           \<and> regenerated f st (loop_bound (target_count f st)) st'"
proof -
  obtain a where a: "new_Float32Array (0::real) (target_count f st) = Inr a"
    "length a = loop_bound (target_count f st)"
    using new_array_target[of "0::real" f st] by blast
  let ?s2 = "for_loop (loop_bound (target_count f st)) 0 (layout_body f)
               (allocate f a (st\<lparr>N := target_count f st\<rparr>))"
  have r: "rebuildPointField f st = Inr (emit (Points (N ?s2)) ?s2)"
    using assms a(1) by (simp add: rebuildPointField_def Let_def)
  have "regenerated f st (loop_bound (target_count f st)) (emit (Points (N ?s2)) ?s2)"
    using a(2)
    by (cases f)
      (simp_all add: emit_def for_loop_template_all for_loop_vortex_all for_loop_swirl_all
        for_loop_orbit_all)
  with r show ?thesis by blast
qed

text \<open>The early return leaves the point field as it is.\<close>

lemma rebuild_unchanged_same:
  assumes "unchanged f (target_count f st) st"
  shows "\<exists>st'. rebuildPointField f st = Inr st' \<and> same_field st st'"
  using assms by (cases f) (simp_all add: rebuildPointField_def same_field_def emit_def)


lemma regenerated_density:
  "regenerated f (st\<lparr>baseDensity := d\<rparr>) n st' = regenerated f st n st'"
  by (cases f) simp_all

text \<open>
  Claim C8. With a callback supplied, \<open>setParams({density: d})\<close> is one call of
  \<open>rebuildPointField\<close> on the state with the new density: it returns without error,
  the count is the clamped target, \<open>t\<close> and \<open>running\<close> are as before. When the
  count changes, the reports grow by exactly one, \<open>Points\<close> of the new count, and the
  point field is rebuilt once: the arrays of the field have the new length and hold the
  fresh layout, and the random sequence has been read once for it. When the test of the
  early return holds, no array and no random draw differs. A call with no density
  (speed, zoom or auto zoom only) runs no rebuild: the count, the arrays and the random
  sequence are untouched, and the only reports are the echoes of speed and zoom.
\<close>

theorem setParams_density_rebuilds_once:
  assumes "onStats st"
  shows "(\<exists>st'. setParams f (density_only d) st = Inr st'
            \<and> rebuildPointField f (st\<lparr>baseDensity := d\<rparr>) = Inr st'
            \<and> N st' = target_count f (st\<lparr>baseDensity := d\<rparr>)
            \<and> t st' = t st \<and> running st' = running st
            \<and> (\<not> js_strict_eq (N st') (N st) \<longrightarrow>
                  stats st' = stats st @ [Points (N st')]
                  \<and> regenerated f st (loop_bound (N st')) st')
            \<and> (unchanged f (N st') st \<longrightarrow> same_field st st'))
         \<and> (density_p p = None \<longrightarrow>
              setParams f p st = Inr (set_zoomAuto (zoomAuto_p p) (set_zoom (zoom_p p) (set_speed (speed_p p) st)))
              \<and> (\<exists>st'. setParams f p st = Inr st'
                    \<and> N st' = N st \<and> xVals st' = xVals st \<and> yVals st' = yVals st
                    \<and> sVals st' = sVals st \<and> theta0Vals st' = theta0Vals st
                    \<and> radiusVals st' = radiusVals st \<and> rngPos st' = rngPos st \<and> t st' = t st
                    \<and> stats st' = stats st
                         @ (case speed_p p of None \<Rightarrow> [] | Some v \<Rightarrow> [SpeedStat v])
                         @ (case zoom_p p of None \<Rightarrow> [] | Some v \<Rightarrow> [ZoomStat v])))"
proof (intro conjI impI)
  let ?s = "st\<lparr>baseDensity := d\<rparr>"
  obtain st' where r: "rebuildPointField f ?s = Inr st'" "N st' = target_count f ?s" "kept ?s st'"
    using rebuild_total[of f ?s] by blast
  have reg: "stats st' = stats st @ [Points (N st')] \<and> regenerated f st (loop_bound (N st')) st'"
    if ne: "\<not> js_strict_eq (N st') (N st)"
  proof -
    have nu: "\<not> unchanged f (target_count f ?s) ?s"
      using ne r(2) unchanged_strict_eq[of f "target_count f ?s" ?s] by auto
    have "stats st' = stats st @ [Points (N st')]"
      using rebuild_regenerates[of f ?s] nu assms r by auto
    moreover have "regenerated f ?s (loop_bound (N st')) st'"
      using rebuild_regenerated[OF nu] r by auto
    ultimately show ?thesis by (simp add: regenerated_density)
  qed
  have same: "same_field st st'" if u: "unchanged f (N st') st"
  proof -
    have "unchanged f (target_count f ?s) ?s"
      using u r(2) by (cases f) simp_all
    from rebuild_unchanged_same[OF this] r(1) have "same_field ?s st'" by auto
    then show ?thesis by (simp add: same_field_def)
  qed
  from r reg same show "\<exists>st'. setParams f (density_only d) st = Inr st'
            \<and> rebuildPointField f (st\<lparr>baseDensity := d\<rparr>) = Inr st'
            \<and> N st' = target_count f (st\<lparr>baseDensity := d\<rparr>)
            \<and> t st' = t st \<and> running st' = running st
            \<and> (\<not> js_strict_eq (N st') (N st) \<longrightarrow>
                  stats st' = stats st @ [Points (N st')]
                  \<and> regenerated f st (loop_bound (N st')) st')
            \<and> (unchanged f (N st') st \<longrightarrow> same_field st st')"
    by (auto simp: set_density_only kept_def)
next
  assume n: "density_p p = None"
  show e: "setParams f p st = Inr (set_zoomAuto (zoomAuto_p p) (set_zoom (zoom_p p) (set_speed (speed_p p) st)))"
    using n by (simp add: setParams_def set_density_def)
  show "\<exists>st'. setParams f p st = Inr st'
                    \<and> N st' = N st \<and> xVals st' = xVals st \<and> yVals st' = yVals st
                    \<and> sVals st' = sVals st \<and> theta0Vals st' = theta0Vals st
                    \<and> radiusVals st' = radiusVals st \<and> rngPos st' = rngPos st \<and> t st' = t st
                    \<and> stats st' = stats st
                         @ (case speed_p p of None \<Rightarrow> [] | Some v \<Rightarrow> [SpeedStat v])
                         @ (case zoom_p p of None \<Rightarrow> [] | Some v \<Rightarrow> [ZoomStat v])"
    unfolding e using assms
    by (simp add: set_speed_def set_zoom_def set_zoomAuto_def emit_def Let_def split: option.splits)
qed

text \<open>
  Claim C9, as amended. A negative density applied through \<open>setParams\<close> gives the
  count \<open>minPoints\<close>, without error. A NaN density raises no error either, but it is
  not clamped: the count is NaN.
\<close>

theorem negative_density_min:
  "(d < 0 \<longrightarrow>
      (\<exists>st'. setParams f (density_only (Num d)) st = Inr st' \<and> N st' = Num (of_int (minPoints f))))
   \<and> (\<exists>st'. setParams f (density_only NaN) st = Inr st' \<and> N st' = NaN)"
proof (intro conjI impI)
  assume d: "d < 0"
  let ?s = "st\<lparr>baseDensity := Num d\<rparr>"
  have "d \<le> 0" using d by simp
  then have "double_mul d (real (W st)) \<le> 0"
    by (rule double_mul_nonpos) simp
  then have "double_mul (double_mul d (real (W st))) (real (H st)) \<le> 0"
    by (rule double_mul_nonpos) simp
  then have "\<lfloor>double_mul (double_mul d (real (W st))) (real (H st))\<rfloor> \<le> 0"
    by (simp add: floor_le_iff)
  moreover have "min hi (max lo n) = lo" if "n \<le> 0" "0 < lo" "lo \<le> hi" for n lo hi :: int
    using that by auto
  ultimately have "min (maxPoints f)
      (max (minPoints f) \<lfloor>double_mul (double_mul d (real (W st))) (real (H st))\<rfloor>) = minPoints f"
    using bounds_ordered[of f] by blast
  then have "target_count f ?s = Num (of_int (minPoints f))"
    using target_count_Num[of ?s d f] by simp
  then show "\<exists>st'. setParams f (density_only (Num d)) st = Inr st' \<and> N st' = Num (of_int (minPoints f))"
    using rebuild_total[of f ?s] by (auto simp: set_density_only)
next
  have "target_count f (st\<lparr>baseDensity := NaN\<rparr>) = NaN" by (simp add: target_count_def)
  then show "\<exists>st'. setParams f (density_only NaN) st = Inr st' \<and> N st' = NaN"
    using rebuild_total[of f "st\<lparr>baseDensity := NaN\<rparr>"] by (auto simp: set_density_only)
qed

theorem negative_density_min_witness:
  "(-1::real) < 0
   \<and> (\<exists>st'. setParams TemplateField (density_only (Num (-1))) template_created = Inr st'
          \<and> N st' = Num 6000)"
  using negative_density_min[of "-1" TemplateField template_created] by simp

text \<open>
  Claim C9 as stated fails for NaN: after \<open>setParams({density: NaN})\<close> on the created
  template field the count is NaN, which is not between \<open>minPoints\<close> and
  \<open>maxPoints\<close>.
\<close>

theorem nan_density_counterexample:
  "map_sum id N (setParams TemplateField (density_only NaN) template_created) = Inr NaN"
proof -
  have "target_count TemplateField (template_created\<lparr>baseDensity := NaN\<rparr>) = NaN"
    by (simp add: target_count_def)
  then show ?thesis
    using rebuild_total[of TemplateField "template_created\<lparr>baseDensity := NaN\<rparr>"]
    by (auto simp: set_density_only)
qed


theorem setParams_density_rebuilds_once_witness:
  "onStats template_created
   \<and> (\<exists>st'. setParams TemplateField (density_only (Num (round_double 0.013))) template_created
              = Inr st'
          \<and> N st' = Num 6240 \<and> t st' = t template_created
          \<and> stats st' = stats template_created @ [Points (Num 6240)]
          \<and> length (xVals st') = 6240 \<and> length (yVals st') = 6240 \<and> rngPos st' = 24480)
   \<and> (\<exists>st'. setParams TemplateField
               \<lparr>speed_p = Some 2, density_p = None, zoom_p = Some 3, zoomAuto_p = Some True\<rparr>
               template_created = Inr st'
          \<and> N st' = Num 6000 \<and> rngPos st' = 12000
          \<and> stats st' = stats template_created @ [SpeedStat 2, ZoomStat 3])"
proof -
  let ?p = "\<lparr>speed_p = Some 2, density_p = None, zoom_p = Some 3, zoomAuto_p = Some True\<rparr>"
  let ?d = "Num (round_double 0.013)"
  have cb: "onStats template_created" by (simp add: template_created_def)
  have "\<lfloor>double_mul (double_mul (round_double 0.013) 800) 600\<rfloor> = 6240"
    by code_simp
  then have tc: "target_count TemplateField (template_created\<lparr>baseDensity := ?d\<rparr>) = Num 6240"
    by (simp add: target_count_def template_created_def)
  have n0: "N template_created = Num 6000" "rngPos template_created = 12000"
    by (simp_all add: template_created_def)
  note th = setParams_density_rebuilds_once[OF cb, of TemplateField ?d ?p]
  from th obtain st' where
    a: "setParams TemplateField (density_only ?d) template_created = Inr st'"
      "N st' = target_count TemplateField (template_created\<lparr>baseDensity := ?d\<rparr>)"
      "t st' = t template_created"
      "\<not> js_strict_eq (N st') (N template_created) \<longrightarrow>
         stats st' = stats template_created @ [Points (N st')]
         \<and> regenerated TemplateField template_created (loop_bound (N st')) st'"
    by blast
  have n: "N st' = Num 6240" using a(2) tc by simp
  have ne: "\<not> js_strict_eq (N st') (N template_created)" by (simp add: n n0)
  have s: "stats st' = stats template_created @ [Points (Num 6240)]"
    using a(4) ne n by simp
  have "regenerated TemplateField template_created 6240 st'"
    using a(4) ne n by simp
  then have l: "length (xVals st') = 6240" "length (yVals st') = 6240" "rngPos st' = 24480"
    by (simp_all add: template_xs_def template_ys_def n0)
  have first: "\<exists>st'. setParams TemplateField (density_only ?d) template_created = Inr st'
          \<and> N st' = Num 6240 \<and> t st' = t template_created
          \<and> stats st' = stats template_created @ [Points (Num 6240)]
          \<and> length (xVals st') = 6240 \<and> length (yVals st') = 6240 \<and> rngPos st' = 24480"
    using a(1,3) n s l by blast
  from th have "\<exists>st'. setParams TemplateField ?p template_created = Inr st'
          \<and> N st' = N template_created \<and> rngPos st' = rngPos template_created
          \<and> stats st' = stats template_created @ [SpeedStat 2] @ [ZoomStat 3]"
    by auto
  then have second: "\<exists>st'. setParams TemplateField ?p template_created = Inr st'
          \<and> N st' = Num 6000 \<and> rngPos st' = 12000
          \<and> stats st' = stats template_created @ [SpeedStat 2, ZoomStat 3]"
    by (simp add: n0)
  from cb first second show ?thesis by blast
qed

text \<open>
  Claim C4, at the input where the code departs from it. A rebuild of the created orbit
  field with density and window unchanged returns the state as it is, reports included:
  the callback is not called. The same rebuild of the created template field keeps the
  arrays and adds the report \<open>Points 6000\<close>.
\<close>

theorem orbit_unchanged_rebuild_silent:
  "rebuildPointField OrbitField (orbit_created 1 1 False) = Inr (orbit_created 1 1 False)
   \<and> rebuildPointField TemplateField template_created =
       Inr (template_created\<lparr>stats := stats template_created @ [Points (Num 6000)]\<rparr>)"
  using count_800_600(1)
  by (simp add: rebuildPointField_def target_count_def orbit_created_def template_created_def
      emit_def Let_def)

text \<open>
  Claim C7, at the input where the code departs from it. After one frame of 16 ms with
  auto zoom on, the zoom phase of the orbit field is 0.016; \<open>reset\<close> changes \<open>t\<close>
  only and leaves the phase at 0.016, where \<open>reset\<close> of the template field zeroes it.
\<close>

theorem orbit_reset_keeps_zoomPhase:
  "zoomPhase (loop OrbitField 16 (orbit_created 1 1 True)) = 0.016
   \<and> reset OrbitField (loop OrbitField 16 (orbit_created 1 1 True)) =
       (loop OrbitField 16 (orbit_created 1 1 True))\<lparr>t := 0\<rparr>
   \<and> zoomPhase (reset OrbitField (loop OrbitField 16 (orbit_created 1 1 True))) = 0.016
   \<and> zoomPhase (reset TemplateField (loop TemplateField 16 (template_created\<lparr>zoomAuto := True\<rparr>))) = 0"
proof -
  have r: "running (orbit_created 1 1 True)" by (simp add: orbit_created_def)
  have z: "zoomPhase (loop OrbitField 16 (orbit_created 1 1 True)) = 0.016"
    using loop_fields(2)[OF r, of OrbitField 16] by (simp add: orbit_created_def frame_dt_def)
  then show ?thesis by simp
qed

lemma reset_effect:
  "f \<noteq> OrbitField \<Longrightarrow> reset f st = st\<lparr>t := 0, zoomPhase := 0\<rparr>"
  "running (reset f st) = running st"
  "t (reset f st) = 0"
  "xVals (reset f st) = xVals st" "yVals (reset f st) = yVals st"
  "sVals (reset f st) = sVals st" "theta0Vals (reset f st) = theta0Vals st"
  "radiusVals (reset f st) = radiusVals st" "N (reset f st) = N st"
  by (cases f; simp)+

lemma reset_fire_effect:
  "zoomPhase (reset_fire st) = 0"
  "buffer (reset_fire st) = replicate (length (buffer st)) (Num 0)"
  "running (reset_fire st) = running st"
  "gridW (reset_fire st) = gridW st" "gridH (reset_fire st) = gridH st"
  "gridSize (reset_fire st) = gridSize st"
  by (simp_all add: reset_fire_def Let_def)

lemma orbit_inv_initial: "orbit_inv (initial OrbitField init cb now r)"
  by (simp add: orbit_inv_def initial_def orbit_xs_def orbit_ys_def)

lemma rebuild_orbit_arrays:
  assumes "orbit_inv st"
  shows "\<exists>st'. rebuildPointField OrbitField st = Inr st'
           \<and> xVals st' = orbit_xs (loop_bound (target_count OrbitField st))
           \<and> yVals st' = orbit_ys (loop_bound (target_count OrbitField st))"
proof (cases "unchanged OrbitField (target_count OrbitField st) st")
  case True
  then have "N st = target_count OrbitField st" by (rule unchanged_N)
  with True assms show ?thesis by (simp add: rebuildPointField_def orbit_inv_def)
next
  case False
  obtain a where a: "new_Float32Array (0::real) (target_count OrbitField st) = Inr a"
    "length a = loop_bound (target_count OrbitField st)"
    using new_array_target[of "0::real" OrbitField st] by blast
  show ?thesis
    using False a
    by (simp add: rebuildPointField_def Let_def for_loop_orbit_all emit_def)
qed

text \<open>
  Claim C10. The layout of the orbit field is a function of the count alone: particle
  \<open>i\<close> gets \<open>(i + 1) mod 200\<close> and \<open>(i + 1) / 43\<close>, and two rebuilds that compute
  the same target leave the same \<open>xVals\<close> and \<open>yVals\<close>, whatever the density, the
  random sequence and the rest of the two states are.
\<close>

theorem orbit_layout_deterministic:
  assumes "orbit_inv st1" and "orbit_inv st2"
    and "target_count OrbitField st1 = target_count OrbitField st2"
  shows "\<exists>s1 s2. rebuildPointField OrbitField st1 = Inr s1 \<and> rebuildPointField OrbitField st2 = Inr s2
           \<and> xVals s1 = xVals s2 \<and> yVals s1 = yVals s2
           \<and> xVals s1 = map (\<lambda>i. real ((i + 1) mod 200)) [0..<loop_bound (target_count OrbitField st1)]
           \<and> yVals s1 = map (\<lambda>i. real (i + 1) / 43) [0..<loop_bound (target_count OrbitField st1)]"
  using rebuild_orbit_arrays[OF assms(1)] rebuild_orbit_arrays[OF assms(2)] assms(3)
  by (auto simp: orbit_xs_def orbit_ys_def)

theorem orbit_layout_deterministic_witness:
  "orbit_inv ((initial OrbitField (ui_state 1 0.001 1 False) True 0 (\<lambda>i. 0))\<lparr>W := 800, H := 600\<rparr>)
   \<and> orbit_inv ((initial OrbitField (ui_state 2 0.002 3 True) False 5 (\<lambda>i. 1 / 2))\<lparr>W := 800, H := 600\<rparr>)
   \<and> target_count OrbitField
        ((initial OrbitField (ui_state 1 0.001 1 False) True 0 (\<lambda>i. 0))\<lparr>W := 800, H := 600\<rparr>)
      = target_count OrbitField
        ((initial OrbitField (ui_state 2 0.002 3 True) False 5 (\<lambda>i. 1 / 2))\<lparr>W := 800, H := 600\<rparr>)
   \<and> (\<exists>s1 s2.
         rebuildPointField OrbitField
           ((initial OrbitField (ui_state 1 0.001 1 False) True 0 (\<lambda>i. 0))\<lparr>W := 800, H := 600\<rparr>) = Inr s1
         \<and> rebuildPointField OrbitField
           ((initial OrbitField (ui_state 2 0.002 3 True) False 5 (\<lambda>i. 1 / 2))\<lparr>W := 800, H := 600\<rparr>) = Inr s2
         \<and> xVals s1 = xVals s2 \<and> yVals s1 = yVals s2 \<and> length (xVals s1) = 6000)"
proof -
  let ?a = "(initial OrbitField (ui_state 1 0.001 1 False) True 0 (\<lambda>i. 0))\<lparr>W := 800, H := 600\<rparr>"
  let ?b = "(initial OrbitField (ui_state 2 0.002 3 True) False 5 (\<lambda>i. 1 / 2))\<lparr>W := 800, H := 600\<rparr>"
  have ia: "orbit_inv ?a" and ib: "orbit_inv ?b"
    by (simp_all add: orbit_inv_def initial_def orbit_xs_def orbit_ys_def)
  have "\<lfloor>double_mul (double_mul (round_double 0.001) 800) 600\<rfloor> = 480"
    and "\<lfloor>double_mul (double_mul (round_double 0.002) 800) 600\<rfloor> = 960"
    by code_simp+
  then have ta: "target_count OrbitField ?a = Num 6000" and tb: "target_count OrbitField ?b = Num 6000"
    by (simp_all add: target_count_def initial_def ui_state_def)
  have tt: "target_count OrbitField ?a = target_count OrbitField ?b" by (simp only: ta tb)
  from orbit_layout_deterministic[OF ia ib tt] obtain s1 s2 where
    r: "rebuildPointField OrbitField ?a = Inr s1" "rebuildPointField OrbitField ?b = Inr s2"
      "xVals s1 = xVals s2" "yVals s1 = yVals s2"
      "xVals s1 = map (\<lambda>i. real ((i + 1) mod 200)) [0..<loop_bound (target_count OrbitField ?a)]"
    by blast
  have "length (xVals s1) = 6000" unfolding r(5) ta by simp
  with ia ib tt r(1-4) show ?thesis by blast
qed


lemma for_loop_layout_lengths:
  "length (xVals (for_loop n i (layout_body f) st)) = length (xVals st)"
  "length (sVals (for_loop n i (layout_body f) st)) = length (sVals st)"
  by (rule for_loop_preserves[where P="\<lambda>s. length (xVals s) = length (xVals st)"],
      simp_all add: layout_body_lengths,
      rule for_loop_preserves[where P="\<lambda>s. length (sVals s) = length (sVals st)"],
      simp_all add: layout_body_lengths)

lemma early_return_arrays [simp]:
  "xVals (early_return f st) = xVals st" "yVals (early_return f st) = yVals st"
  "sVals (early_return f st) = sVals st" "theta0Vals (early_return f st) = theta0Vals st"
  "radiusVals (early_return f st) = radiusVals st" "rngPos (early_return f st) = rngPos st"
  by (cases f; simp add: emit_def)+

lemma unchanged_cong:
  "N s = N st \<Longrightarrow> length (xVals s) = length (xVals st) \<Longrightarrow> length (sVals s) = length (sVals st) \<Longrightarrow>
   unchanged f target s = unchanged f target st"
  by (cases f) simp_all

lemma target_count_kept: "kept st st' \<Longrightarrow> target_count f st' = target_count f st"
  by (simp add: target_count_def kept_def)

text \<open>After a rebuild with a numeric density, the test of the early return holds.\<close>

lemma rebuild_then_unchanged:
  assumes "rebuildPointField f st = Inr st'" and "target_count f st = Num (of_int k)" and "0 \<le> k"
    and "k \<le> 120000"
  shows "unchanged f (target_count f st) st'"
proof (cases "unchanged f (target_count f st) st")
  case True
  with assms(1) have "st' = early_return f st" by (simp add: rebuildPointField_def)
  then show ?thesis using True unchanged_cong[of st' st f] by simp
next
  case False
  have a: "new_Float32Array (0::real) (target_count f st) = Inr (replicate (nat k) 0)"
    unfolding assms(2) using assms(3,4) by (rule new_array_count)
  let ?s1 = "allocate f (replicate (nat k) 0) (st\<lparr>N := Num (of_int k)\<rparr>)"
  let ?s2 = "for_loop (loop_bound (Num (of_int k))) 0 (layout_body f) ?s1"
  have st': "st' = emit (Points (N ?s2)) ?s2"
    using assms(1,2) False a by (simp add: rebuildPointField_def Let_def)
  have len: "length (xVals ?s1) = nat k \<or> f = SwirlField" "length (sVals ?s1) = nat k \<or> f \<noteq> SwirlField"
    by (cases f; simp)+
  have "N st' = Num (of_int k)" by (simp add: st' for_loop_layout_N)
  moreover have "length (xVals st') = length (xVals ?s1)" "length (sVals st') = length (sVals ?s1)"
    by (simp_all add: st' emit_def for_loop_layout_lengths)
  ultimately show ?thesis
    using len assms(2,3) by (cases f) auto
qed

lemma rebuild_again_same_arrays:
  assumes "rebuildPointField f st = Inr st'"
  shows "\<exists>st''. rebuildPointField f st' = Inr st''
           \<and> xVals st'' = xVals st' \<and> yVals st'' = yVals st'
           \<and> sVals st'' = sVals st' \<and> theta0Vals st'' = theta0Vals st'
           \<and> radiusVals st'' = radiusVals st' \<and> rngPos st'' = rngPos st' \<and> N st'' = N st'"
proof -
  have k: "kept st st'" and n: "N st' = target_count f st"
    using rebuild_total[of f st] assms by auto
  have tc: "target_count f st' = target_count f st" using k by (rule target_count_kept)
  from target_count_cases[of f st] show ?thesis
  proof
    assume nan: "target_count f st = NaN"
    have nu: "\<not> unchanged f NaN s" for s by (cases f) simp_all
    have r: "rebuildPointField f s = Inr (emit (Points NaN) (allocate f [] (s\<lparr>N := NaN\<rparr>)))"
      if "target_count f s = NaN" for s
      using that nu by (simp add: rebuildPointField_def new_Float32Array_def Let_def
          for_loop_layout_N)
    have 1: "st' = emit (Points NaN) (allocate f [] (st\<lparr>N := NaN\<rparr>))"
      using r[OF nan] assms by simp
    have 2: "rebuildPointField f st' = Inr (emit (Points NaN) (allocate f [] (st'\<lparr>N := NaN\<rparr>)))"
      using r[of st'] tc nan by simp
    let ?r = "emit (Points NaN) (allocate f [] (st'\<lparr>N := NaN\<rparr>))"
    have "xVals ?r = xVals st'" "yVals ?r = yVals st'" "sVals ?r = sVals st'"
      "theta0Vals ?r = theta0Vals st'" "radiusVals ?r = radiusVals st'" "rngPos ?r = rngPos st'"
      "N ?r = N st'"
      by (cases f; simp add: emit_def 1)+
    then show ?thesis unfolding 2 by blast
  next
    assume "\<exists>k. minPoints f \<le> k \<and> k \<le> maxPoints f \<and> target_count f st = Num (of_int k)"
    then obtain k where k: "minPoints f \<le> k" "k \<le> maxPoints f" "target_count f st = Num (of_int k)"
      by blast
    then have "0 \<le> k" "k \<le> 120000" using bounds_ordered[of f] by auto
    then have "unchanged f (target_count f st) st'"
      using rebuild_then_unchanged[OF assms k(3)] by simp
    then have "rebuildPointField f st' = Inr (early_return f st')"
      by (simp add: rebuildPointField_def tc)
    then show ?thesis by simp
  qed
qed


section \<open>The diffusion of the fire field\<close>

lemma rebuildGrid_fire_300:
  "rebuildGrid (fire_300\<lparr>stats := []\<rparr>) = Inr fire_300"
proof -
  have c: "max 14 (double_sub 28 (double_mul (max 0 (min 1 (round_double 0.3))) 10)) = 25"
    by code_simp
  have "\<lfloor>double_div 300 25\<rfloor> = 12" "\<lfloor>double_div 300 (double_mul 25 (round_double 0.8))\<rfloor> = 15"
    by code_simp+
  then show ?thesis
    by (simp add: rebuildGrid_def fire_300_def new_Float32Array_def Let_def emit_def c)
qed

lemma seed_fire_300: "buffer (seed_body 0 fire_300) = fire_seeded"
proof -
  have "to_int32 (double_mul (31 / 32) 24) = 23"
    by code_simp
  then show ?thesis
    by (simp add: seed_body_def fire_300_def fire_seeded_def wr_def Let_def)
qed

lemma rd_update: "rd (buf[i := v]) k = (if k = i \<and> i < length buf then v else rd buf k)"
  by (simp add: rd_def nth_list_update)

lemma diffuse_body_length [simp]: "length (diffuse_body gw i buf) = length buf"
  by (simp add: diffuse_body_def Let_def)

lemma fade_body_length [simp]: "length (fade_body i buf) = length buf"
  by (simp add: fade_body_def)

lemma diffuse_body_later:
  "i < j \<Longrightarrow> j < length buf \<Longrightarrow>
   diffuse_body gw j (diffuse_body gw i buf) ! j = diffuse_body gw j buf ! j"
  by (simp add: diffuse_body_def Let_def rd_update nth_list_update)

lemma diffuse_loop:
  "length (for_loop n i (diffuse_body gw) buf) = length buf \<and>
   (\<forall>j < length buf. for_loop n i (diffuse_body gw) buf ! j =
      (if i \<le> j \<and> j < i + n then diffuse_body gw j buf ! j else buf ! j))"
proof (induction n arbitrary: i buf)
  case 0
  then show ?case by auto
next
  case (Suc n)
  let ?b = "diffuse_body gw i buf"
  have same: "?b ! j = buf ! j" if "j \<noteq> i" for j
    using that by (simp add: diffuse_body_def Let_def)
  have ih: "length (for_loop n (Suc i) (diffuse_body gw) ?b) = length buf"
    "\<And>j. j < length buf \<Longrightarrow> for_loop n (Suc i) (diffuse_body gw) ?b ! j =
      (if Suc i \<le> j \<and> j < Suc i + n then diffuse_body gw j ?b ! j else ?b ! j)"
    using Suc.IH[of "Suc i" ?b] by simp_all
  have "for_loop (Suc n) i (diffuse_body gw) buf ! j =
      (if i \<le> j \<and> j < i + Suc n then diffuse_body gw j buf ! j else buf ! j)"
    if j: "j < length buf" for j
  proof -
    consider "j < i" | "j = i" | "i < j" by linarith
    then show ?thesis
    proof cases
      case 1
      then show ?thesis using ih(2)[OF j] by (simp add: same)
    next
      case 2
      then show ?thesis using ih(2)[OF j] by simp
    next
      case 3
      then show ?thesis using ih(2)[OF j] j by (simp add: diffuse_body_later same)
    qed
  qed
  then show ?case using ih(1) by simp
qed

lemma fade_loop:
  "length (for_loop n i fade_body buf) = length buf \<and>
   (\<forall>j < length buf. for_loop n i fade_body buf ! j =
      (if i \<le> j \<and> j < i + n then js_mul (buf ! j) (Num 0.985) else buf ! j))"
proof (induction n arbitrary: i buf)
  case 0
  then show ?case by auto
next
  case (Suc n)
  let ?b = "fade_body i buf"
  have b: "?b ! j = (if j = i then js_mul (buf ! j) (Num 0.985) else buf ! j)" if "j < length buf" for j
    using that by (simp add: fade_body_def rd_def)
  have ih: "length (for_loop n (Suc i) fade_body ?b) = length buf"
    "\<And>j. j < length buf \<Longrightarrow> for_loop n (Suc i) fade_body ?b ! j =
      (if Suc i \<le> j \<and> j < Suc i + n then js_mul (?b ! j) (Num 0.985) else ?b ! j)"
    using Suc.IH[of "Suc i" ?b] by simp_all
  have "for_loop (Suc n) i fade_body buf ! j =
      (if i \<le> j \<and> j < i + Suc n then js_mul (buf ! j) (Num 0.985) else buf ! j)"
    if j: "j < length buf" for j
  proof -
    consider "j < i" | "j = i" | "i < j" by linarith
    then show ?thesis
    proof cases
      case 1
      then show ?thesis using ih(2)[OF j] b[OF j] by simp
    next
      case 2
      then show ?thesis using ih(2)[OF j] b[OF j] by simp
    next
      case 3
      then show ?thesis using ih(2)[OF j] b[OF j] by simp
    qed
  qed
  then show ?case using ih(1) by simp
qed

lemma diffuse_fade_nth:
  assumes "j < length buf"
  shows "diffuse_fade gw gs buf ! j =
           (if j < gs
            then js_mul (js_mul (js_add (js_add (js_add (rd buf j) (rd buf (j + 1))) (rd buf (j + gw)))
                                  (rd buf (j + gw + 1))) (Num 0.25)) (Num 0.985)
            else buf ! j)"
    and "length (diffuse_fade gw gs buf) = length buf"
proof -
  let ?d = "for_loop gs 0 (diffuse_body gw) buf"
  have ld: "length ?d = length buf" using diffuse_loop[of gs 0 gw buf] by simp
  have d: "?d ! j = (if j < gs then diffuse_body gw j buf ! j else buf ! j)"
    using diffuse_loop[of gs 0 gw buf] assms by simp
  have f: "diffuse_fade gw gs buf ! j = (if j < gs then js_mul (?d ! j) (Num 0.985) else ?d ! j)"
    using fade_loop[of gs 0 ?d] assms ld by (simp add: diffuse_fade_def)
  show "diffuse_fade gw gs buf ! j =
           (if j < gs
            then js_mul (js_mul (js_add (js_add (js_add (rd buf j) (rd buf (j + 1))) (rd buf (j + gw)))
                                  (rd buf (j + gw + 1))) (Num 0.25)) (Num 0.985)
            else buf ! j)"
    using assms by (simp add: f d diffuse_body_def Let_def)
  show "length (diffuse_fade gw gs buf) = length buf"
    using fade_loop[of gs 0 ?d] ld by (simp add: diffuse_fade_def)
qed

text \<open>
  Claim C5 as stated fails cell by cell: the diffusion carries heat to the cells on the
  left of and above a hot cell. In the least grid, with cell 431 lit at 60 and no seeding,
  one step raises its left neighbour, cell 430, from 0 to 14.775.
\<close>

theorem fire_cell_rises_counterexample:
  "rd fire_seeded 430 = Num 0 \<and> rd (diffuse_fade 24 432 fire_seeded) 430 = Num 14.775"
proof -
  have l: "length fire_seeded = 457" by (simp add: fire_seeded_def)
  have a: "rd fire_seeded 430 = Num 0" "rd fire_seeded 431 = Num 60"
    "rd fire_seeded 454 = Num 0" "rd fire_seeded 455 = Num 0"
    by (simp_all add: rd_def fire_seeded_def)
  have "diffuse_fade 24 432 fire_seeded ! 430 = Num 14.775"
    using diffuse_fade_nth(1)[of 430 fire_seeded 24 432] a by (simp add: l)
  then show ?thesis
    using a(1) diffuse_fade_nth(2)[of 430 fire_seeded 24 432] by (simp add: rd_def l)
qed


lemma fire_ok_nth:
  "fire_ok gs m buf \<longleftrightarrow>
     (\<forall>i < length buf. if i < gs then cell_in 0 m (buf ! i) else buf ! i = Num 0)"
proof
  assume a: "fire_ok gs m buf"
  show "\<forall>i < length buf. if i < gs then cell_in 0 m (buf ! i) else buf ! i = Num 0"
  proof (intro allI impI)
    fix i assume i: "i < length buf"
    show "if i < gs then cell_in 0 m (buf ! i) else buf ! i = Num 0"
    proof (cases "i < gs")
      case True
      then have "take gs buf ! i = buf ! i" "i < length (take gs buf)" using i by simp_all
      then show ?thesis using a True unfolding fire_ok_def list_all_length by metis
    next
      case False
      then have "drop gs buf ! (i - gs) = buf ! i" "i - gs < length (drop gs buf)" using i by simp_all
      then show ?thesis using a False unfolding fire_ok_def list_all_length by metis
    qed
  qed
next
  assume a: "\<forall>i < length buf. if i < gs then cell_in 0 m (buf ! i) else buf ! i = Num 0"
  have "list_all (cell_in 0 m) (take gs buf)"
    unfolding list_all_length using a by auto
  moreover have "list_all (\<lambda>c. c = Num 0) (drop gs buf)"
    unfolding list_all_length
  proof (intro allI impI)
    fix n assume "n < length (drop gs buf)"
    then have "gs + n < length buf" by simp
    then show "drop gs buf ! n = Num 0" using a by force
  qed
  ultimately show "fire_ok gs m buf" by (simp add: fire_ok_def)
qed

lemma fire_ok_rd:
  assumes "fire_ok gs m buf" and "0 \<le> m" and "k < length buf"
  shows "\<exists>v. rd buf k = Num v \<and> 0 \<le> v \<and> v \<le> m"
proof -
  have "if k < gs then cell_in 0 m (buf ! k) else buf ! k = Num 0"
    using assms(1,3) by (simp add: fire_ok_nth)
  then show ?thesis
    using assms(2,3) by (cases "buf ! k") (auto simp: rd_def split: if_splits)
qed

lemma diffuse_fade_step:
  assumes len: "length buf = gs + gw + 1" and m: "0 \<le> m" and ok: "fire_ok gs m buf"
  shows "fire_ok gs (0.985 * m) (diffuse_fade gw gs buf)"
    and "length (diffuse_fade gw gs buf) = gs + gw + 1"
proof -
  show l: "length (diffuse_fade gw gs buf) = gs + gw + 1"
    using diffuse_fade_nth(2)[of 0 buf gw gs] len by simp
  have "if j < gs then cell_in 0 (0.985 * m) (diffuse_fade gw gs buf ! j)
        else diffuse_fade gw gs buf ! j = Num 0" if j: "j < length buf" for j
  proof (cases "j < gs")
    case True
    then have in_range: "j < length buf" "j + 1 < length buf" "j + gw < length buf"
      "j + gw + 1 < length buf" using len by simp_all
    obtain a where a: "rd buf j = Num a" "0 \<le> a" "a \<le> m"
      using fire_ok_rd[OF ok m in_range(1)] by blast
    obtain b where b: "rd buf (j + 1) = Num b" "0 \<le> b" "b \<le> m"
      using fire_ok_rd[OF ok m in_range(2)] by blast
    obtain c where c: "rd buf (j + gw) = Num c" "0 \<le> c" "c \<le> m"
      using fire_ok_rd[OF ok m in_range(3)] by blast
    obtain d where d: "rd buf (j + gw + 1) = Num d" "0 \<le> d" "d \<le> m"
      using fire_ok_rd[OF ok m in_range(4)] by blast
    have "diffuse_fade gw gs buf ! j = Num ((a + b + c + d) * 0.25 * 0.985)"
      using diffuse_fade_nth(1)[OF j, of gw gs] True a(1) b(1) c(1) d(1) by simp
    moreover have "0 \<le> (a + b + c + d) * 0.25 * 0.985" "(a + b + c + d) * 0.25 * 0.985 \<le> 0.985 * m"
      using a b c d by simp_all
    ultimately show ?thesis using True by simp
  next
    case False
    then have "diffuse_fade gw gs buf ! j = buf ! j"
      using diffuse_fade_nth(1)[OF j, of gw gs] by simp
    then show ?thesis using False ok j by (simp add: fire_ok_nth)
  qed
  moreover have "length (diffuse_fade gw gs buf) = length buf" using l len by simp
  ultimately show "fire_ok gs (0.985 * m) (diffuse_fade gw gs buf)"
    unfolding fire_ok_nth by presburger
qed

text \<open>
  Claim C5, as amended. Without seeding, on a buffer of the size \<open>rebuildGrid\<close>
  allocates whose grid cells lie between 0 and \<open>m\<close> and whose padding is zero, \<open>n\<close>
  steps (diffusion, then fading) leave every grid cell a number between 0 and
  \<open>0.985 ^ n * m\<close> and the padding zero: no cell is ever negative, none exceeds the
  bound it started under (70, say), and the largest intensity decreases towards 0 by the
  factor 0.985 a step at least.
\<close>

theorem diffuse_fade_decays:
  assumes "length buf = gs + gw + 1" and "0 \<le> m" and "fire_ok gs m buf"
  shows "fire_ok gs (0.985 ^ n * m) ((diffuse_fade gw gs ^^ n) buf)
         \<and> length ((diffuse_fade gw gs ^^ n) buf) = gs + gw + 1"
proof (induction n)
  case 0
  then show ?case using assms by simp
next
  case (Suc n)
  have "0 \<le> 0.985 ^ n * m" using assms(2) by simp
  with Suc show ?case
    using diffuse_fade_step[of "(diffuse_fade gw gs ^^ n) buf" gs gw "0.985 ^ n * m"]
    by (simp add: mult.assoc)
qed

lemma fire_seeded_ok: "fire_ok 432 70 fire_seeded"
  unfolding fire_ok_nth by (auto simp: fire_seeded_def nth_list_update)

theorem diffuse_fade_decays_witness:
  "length fire_seeded = 432 + 24 + 1 \<and> (0::real) \<le> 70 \<and> fire_ok 432 70 fire_seeded
   \<and> fire_ok 432 (0.985 ^ 3 * 70) ((diffuse_fade 24 432 ^^ 3) fire_seeded)"
proof -
  have l: "length fire_seeded = 432 + 24 + 1" by (simp add: fire_seeded_def)
  show ?thesis
    using diffuse_fade_decays[OF l _ fire_seeded_ok, of 3] l fire_seeded_ok by simp
qed


subsection \<open>The fire field in operation\<close>

lemma loop_fire_idle: "\<not> running st \<Longrightarrow> loop_fire now st = st"
  by (simp add: loop_fire_def)

lemma fire_ok_mono: "fire_ok gs m buf \<Longrightarrow> m \<le> m' \<Longrightarrow> fire_ok gs m' buf"
proof -
  assume a: "fire_ok gs m buf" "m \<le> m'"
  have "cell_in 0 m c \<Longrightarrow> cell_in 0 m' c" for c using a(2) by (cases c) auto
  then show ?thesis using a(1) unfolding fire_ok_nth by (metis (full_types))
qed

lemma to_index_nat:
  "to_index (Num (real n)) = (if 2 ^ 53 - 1 < int n then Inl RangeError else Inr n)"
  by (simp add: Let_def)

lemma fire_ok_zero: "0 \<le> m \<Longrightarrow> fire_ok gs m (replicate n (Num 0))"
  by (simp add: fire_ok_nth)

lemma rebuildGrid_inv:
  assumes "rebuildGrid st = Inr st'" and "\<forall>i. 0 \<le> rng st i \<and> rng st i \<le> 1 - 1 / 2 ^ 53"
  shows "fire_inv st'"
proof -
  define d where "d = max 0 (min 1 (baseDensity st))"
  define cellSize where "cellSize = max 14 (double_sub 28 (double_mul d 10))"
  define gw where "gw = max 24 (nat \<lfloor>double_div (real (W st)) cellSize\<rfloor>)"
  define gh where
    "gh = max 18 (nat \<lfloor>double_div (real (H st)) (double_mul cellSize (round_double 0.8))\<rfloor>)"
  have "\<exists>b. new_Float32Array (Num 0) (Num (real (gw * gh + gw + 1))) = Inr b
          \<and> st' = emit (Points (Num (real (gw * gh))))
                    (st\<lparr>gridW := gw, gridH := gh, gridSize := gw * gh, buffer := b\<rparr>)"
    using assms(1) unfolding rebuildGrid_def Let_def d_def[symmetric] cellSize_def[symmetric]
      gw_def[symmetric] gh_def[symmetric]
    by (auto split: sum.splits)
  then obtain b where b: "new_Float32Array (Num 0) (Num (real (gw * gh + gw + 1))) = Inr b"
    and st': "st' = emit (Points (Num (real (gw * gh))))
                    (st\<lparr>gridW := gw, gridH := gh, gridSize := gw * gh, buffer := b\<rparr>)"
    by blast
  have bz: "b = replicate (gw * gh + gw + 1) (Num 0)"
    and sz: "\<not> 2 ^ 53 - 1 < int (gw * gh + gw + 1)"
    using b unfolding new_Float32Array_def to_index_nat by (auto split: if_splits)
  have pos: "0 < gw" "0 < gh" by (simp_all add: gw_def gh_def)
  have "int gw \<le> int (gw * gh + gw + 1)" by simp
  then have "int gw < 2 ^ 53" using sz by linarith
  have "fire_ok (gw * gh) 65 b"
    unfolding bz by (rule fire_ok_zero) simp
  with \<open>int gw < 2 ^ 53\<close> show ?thesis
    using pos assms(2) by (simp add: fire_inv_def st' emit_def bz)
qed

lemma seed_body_inv:
  assumes "fire_inv st"
  shows "fire_inv (seed_body i st)"
proof -
  let ?gw = "gridW st" and ?gh = "gridH st"
  let ?r = "rng st (rngPos st)" and ?r' = "rng st (rngPos st + 1)"
  have inv: "length (buffer st) = gridSize st + ?gw + 1" "gridSize st = ?gw * ?gh"
    "0 < ?gw" "0 < ?gh" "fire_ok (gridSize st) 65 (buffer st)" "int ?gw < 2 ^ 53"
    and r: "0 \<le> ?r" "?r \<le> 1 - 1 / 2 ^ 53" "0 \<le> ?r'" "?r' \<le> 1 - 1 / 2 ^ 53"
    using assms unfolding fire_inv_def by blast+
  define k where "k = trunc0 (double_mul ?r (real ?gw))"
  define col where "col = to_int32 (double_mul ?r (real ?gw))"
  define idx where "idx = col + int ?gw * (int ?gh - 1)"
  have "0 \<le> double_mul ?r (real ?gw)"
    unfolding double_mul_def using r(1) by (intro round_double_nonneg) simp
  moreover have "double_mul ?r (real ?gw) < real ?gw"
    unfolding double_mul_def using r(1,2) inv(3,6) by (rule round_double_below)
  ultimately have k: "0 \<le> k" "k < int ?gw"
    by (simp_all add: k_def trunc0_def floor_less_iff)
  have ck: "col = (k + 2 ^ 31) mod 2 ^ 32 - 2 ^ 31"
    by (simp add: col_def to_int32_def k_def)
  have c: "col < int ?gw"
  proof (cases "k < 2 ^ 31")
    case True
    then have "(k + 2 ^ 31) mod 2 ^ 32 = k + 2 ^ 31" using k(1) by simp
    then show ?thesis using k(2) ck by simp
  next
    case False
    define m where "m = (k + 2 ^ 31) mod (2 ^ 32 :: int)"
    have "m < 4294967296" unfolding m_def by simp
    moreover have "2147483648 \<le> k" using False by simp
    moreover have "col = m - 2147483648" using ck by (simp add: m_def)
    ultimately show ?thesis using k(2) by linarith
  qed
  have "int ?gw * (int ?gh - 1) = int (?gw * ?gh) - int ?gw"
    by (simp add: algebra_simps)
  then have ix: "idx < int (gridSize st)"
    using c inv(2) unfolding idx_def by linarith
  have "(0::real) < 1 / 2 ^ 53" by simp
  then have "?r' < 1" using r(4) by linarith
  then have v: "cell_in 0 65 (Num (60 + ?r' * 5))" using r(3) by simp
  have sb: "seed_body i st = st\<lparr>buffer := wr (buffer st) idx (Num (60 + ?r' * 5)),
                                  rngPos := rngPos st + 2\<rparr>"
    by (simp add: seed_body_def Let_def col_def idx_def)
  have l: "length (wr (buffer st) idx (Num (60 + ?r' * 5))) = length (buffer st)"
    by (simp add: wr_def)
  have "fire_ok (gridSize st) 65 (wr (buffer st) idx (Num (60 + ?r' * 5)))"
  proof (cases "0 \<le> idx \<and> nat idx < length (buffer st)")
    case False
    then have "wr (buffer st) idx (Num (60 + ?r' * 5)) = buffer st"
      unfolding wr_def by (rule if_not_P)
    then show ?thesis using inv(5) by simp
  next
    case True
    then have w: "wr (buffer st) idx (Num (60 + ?r' * 5)) = (buffer st)[nat idx := Num (60 + ?r' * 5)]"
      unfolding wr_def by (rule if_P)
    have n: "nat idx < gridSize st" using True ix by linarith
    show ?thesis
      unfolding w fire_ok_nth
    proof (intro allI impI)
      fix j assume "j < length ((buffer st)[nat idx := Num (60 + ?r' * 5)])"
      then have j: "j < length (buffer st)" by simp
      show "if j < gridSize st then cell_in 0 65 ((buffer st)[nat idx := Num (60 + ?r' * 5)] ! j)
            else (buffer st)[nat idx := Num (60 + ?r' * 5)] ! j = Num 0"
      proof (cases "j = nat idx")
        case True
        then show ?thesis using n j v by simp
      next
        case False
        then show ?thesis using inv(5) j unfolding fire_ok_nth by simp
      qed
    qed
  qed
  then show ?thesis using assms l unfolding fire_inv_def sb by simp
qed

lemma fire_step_inv:
  assumes "fire_inv st"
  shows "fire_inv (fire_step n st)"
proof -
  let ?s1 = "for_loop n 0 seed_body st"
  have s1: "fire_inv ?s1"
    using assms by (intro for_loop_preserves[where P = fire_inv]) (simp_all add: seed_body_inv)
  then have inv: "length (buffer ?s1) = gridSize ?s1 + gridW ?s1 + 1"
    "fire_ok (gridSize ?s1) 65 (buffer ?s1)"
    unfolding fire_inv_def by blast+
  have "fire_ok (gridSize ?s1) (0.985 * 65) (diffuse_fade (gridW ?s1) (gridSize ?s1) (buffer ?s1))"
    "length (diffuse_fade (gridW ?s1) (gridSize ?s1) (buffer ?s1)) = gridSize ?s1 + gridW ?s1 + 1"
    using diffuse_fade_step[OF inv(1) _ inv(2)] by simp_all
  then have "fire_ok (gridSize ?s1) 65 (diffuse_fade (gridW ?s1) (gridSize ?s1) (buffer ?s1))"
    "length (diffuse_fade (gridW ?s1) (gridSize ?s1) (buffer ?s1)) = gridSize ?s1 + gridW ?s1 + 1"
    using fire_ok_mono[of "gridSize ?s1" "0.985 * 65" _ 65] by simp_all
  then show ?thesis using s1 unfolding fire_step_def Let_def fire_inv_def by simp
qed

text \<open>With its seeding, \<open>stepFire\<close> keeps every cell between 0 and 65.\<close>

lemma stepFire_inv: "fire_inv st \<Longrightarrow> fire_inv (stepFire steps st)"
  unfolding stepFire_def Let_def
  by (simp add: for_loop_preserves[where P = fire_inv] fire_step_inv)


section \<open>The framing of the orbit field\<close>

lemma created_orbit_dense:
  "createAnimation OrbitField (ui_state s 0.05 z a) True True 0 0 800 600 (\<lambda>i. 0)
     = Inr (orbit_dense s z a)"
proof -
  have i: "to_index (Num 24000) = Inr 24000" by (simp add: Let_def)
  show ?thesis
    using count_800_600(2)
    by (simp add: createAnimation_def fitCanvas_def initial_def ui_state_def rebuildPointField_def
      target_count_def new_Float32Array_def i
      for_loop_orbit_all Let_def emit_def
      setParams_def set_speed_def set_density_def set_zoom_def set_zoomAuto_def play_def
      request_frame_def orbit_dense_def)
qed

lemma Min_insert_min:
  "finite S \<Longrightarrow> Min (insert (min a x) S) = Min (insert a (insert x S))" for a x :: real
  by (cases "S = {}") (simp_all add: min.assoc)

lemma Max_insert_max:
  "finite S \<Longrightarrow> Max (insert (max a x) S) = Max (insert a (insert x S))" for a x :: real
  by (cases "S = {}") (simp_all add: max.assoc)

lemma bbox_pass_Min:
  "bbox_pass ps (a, b, c, d) =
     (Min (insert a (fst ` set ps)), Max (insert b (fst ` set ps)),
      Min (insert c (snd ` set ps)), Max (insert d (snd ` set ps)))"
proof (induction ps arbitrary: a b c d)
  case Nil
  then show ?case by simp
next
  case (Cons p ps)
  obtain mx my where p: "p = (mx, my)" by (cases p)
  have m: "(if mx < a then mx else a) = min a mx" "(if mx > b then mx else b) = max b mx"
    "(if my < c then my else c) = min c my" "(if my > d then my else d) = max d my"
    by (simp_all add: min_def max_def)
  show ?case
    unfolding p bbox_pass.simps m Cons.IH
    by (simp add: Min_insert_min Max_insert_max)
qed


lemma fit_parts:
  assumes "fit w h z (minX, maxX, minY, maxY) = (scale, offX, offY)"
  shows "scale = min (real w * 0.92 / (if maxX - minX = 0 then 1 else maxX - minX))
                     (real h * 0.92 / (if maxY - minY = 0 then 1 else maxY - minY)) * z"
    and "offX = real w * 0.5 - (minX + maxX) * 0.5 * scale"
    and "offY = real h * 0.5 - (minY + maxY) * 0.5 * scale"
proof -
  from assms have
    "(min (real w * 0.92 / (if maxX - minX = 0 then 1 else maxX - minX))
          (real h * 0.92 / (if maxY - minY = 0 then 1 else maxY - minY)) * z,
      real w * 0.5 - (minX + maxX) * 0.5 *
        (min (real w * 0.92 / (if maxX - minX = 0 then 1 else maxX - minX))
             (real h * 0.92 / (if maxY - minY = 0 then 1 else maxY - minY)) * z),
      real h * 0.5 - (minY + maxY) * 0.5 *
        (min (real w * 0.92 / (if maxX - minX = 0 then 1 else maxX - minX))
             (real h * 0.92 / (if maxY - minY = 0 then 1 else maxY - minY)) * z))
     = (scale, offX, offY)"
    unfolding fit_def Let_def prod.case .
  then show "scale = min (real w * 0.92 / (if maxX - minX = 0 then 1 else maxX - minX))
                     (real h * 0.92 / (if maxY - minY = 0 then 1 else maxY - minY)) * z"
    and "offX = real w * 0.5 - (minX + maxX) * 0.5 * scale"
    and "offY = real h * 0.5 - (minY + maxY) * 0.5 * scale"
    by blast+
qed

text \<open>The offsets put the middle of the box on the centre of the canvas.\<close>

lemma fit_centre:
  assumes "fit w h z (minX, maxX, minY, maxY) = (scale, offX, offY)"
  shows "mx * scale + offX - real w / 2 = (mx - (minX + maxX) / 2) * scale"
    and "my * scale + offY - real h / 2 = (my - (minY + maxY) / 2) * scale"
  unfolding fit_parts(2,3)[OF assms] by (simp_all add: algebra_simps)

lemma fit_scale:
  assumes "fit w h z (minX, maxX, minY, maxY) = (scale, offX, offY)"
    and "minX \<le> maxX" and "minY \<le> maxY"
  shows "\<bar>scale\<bar> * (maxX - minX) \<le> 0.92 * real w * \<bar>z\<bar>"
    and "\<bar>scale\<bar> * (maxY - minY) \<le> 0.92 * real h * \<bar>z\<bar>"
proof -
  define bw where "bw = (if maxX - minX = 0 then 1 else maxX - minX)"
  define bh where "bh = (if maxY - minY = 0 then 1 else maxY - minY)"
  define base where "base = min (real w * 0.92 / bw) (real h * 0.92 / bh)"
  have pos: "0 < bw" "0 < bh" using assms(2,3) by (auto simp: bw_def bh_def)
  have le: "maxX - minX \<le> bw" "maxY - minY \<le> bh"
    using assms(2,3) by (auto simp: bw_def bh_def)
  have sc: "scale = base * z"
    unfolding base_def bw_def bh_def by (rule fit_parts(1)[OF assms(1)])
  have b0: "0 \<le> base" using pos by (simp add: base_def)
  have "base \<le> real w * 0.92 / bw" unfolding base_def by (rule min.cobounded1)
  then have bx: "base * bw \<le> 0.92 * real w"
    using pos(1) by (simp add: pos_le_divide_eq mult.commute)
  have "base \<le> real h * 0.92 / bh" unfolding base_def by (rule min.cobounded2)
  then have by': "base * bh \<le> 0.92 * real h"
    using pos(2) by (simp add: pos_le_divide_eq mult.commute)
  have a: "\<bar>scale\<bar> = base * \<bar>z\<bar>" using b0 by (simp add: sc abs_mult)
  have "base * (maxX - minX) \<le> base * bw" using le(1) b0 by (rule mult_left_mono)
  then have "base * (maxX - minX) \<le> 0.92 * real w" using bx by linarith
  then have "base * (maxX - minX) * \<bar>z\<bar> \<le> 0.92 * real w * \<bar>z\<bar>"
    by (rule mult_right_mono) simp
  then show "\<bar>scale\<bar> * (maxX - minX) \<le> 0.92 * real w * \<bar>z\<bar>"
    unfolding a by (simp only: mult.assoc mult.commute mult.left_commute)
  have "base * (maxY - minY) \<le> base * bh" using le(2) b0 by (rule mult_left_mono)
  then have "base * (maxY - minY) \<le> 0.92 * real h" using by' by linarith
  then have "base * (maxY - minY) * \<bar>z\<bar> \<le> 0.92 * real h * \<bar>z\<bar>"
    by (rule mult_right_mono) simp
  then show "\<bar>scale\<bar> * (maxY - minY) \<le> 0.92 * real h * \<bar>z\<bar>"
    unfolding a by (simp only: mult.assoc mult.commute mult.left_commute)
qed

lemma fit_tight:
  assumes "fit w h z (minX, maxX, minY, maxY) = (scale, offX, offY)"
    and "minX < maxX" and "minY < maxY"
  shows "scale * (maxX - minX) = 0.92 * real w * z \<or> scale * (maxY - minY) = 0.92 * real h * z"
proof -
  define bw where "bw = maxX - minX"
  define bh where "bh = maxY - minY"
  have pos: "0 < bw" "0 < bh" using assms(2,3) by (simp_all add: bw_def bh_def)
  have sc: "scale = min (real w * 0.92 / bw) (real h * 0.92 / bh) * z"
    using fit_parts(1)[OF assms(1)] pos by (simp add: bw_def bh_def)
  show ?thesis
  proof (cases "real w * 0.92 / bw \<le> real h * 0.92 / bh")
    case True
    then have "scale = real w * 0.92 / bw * z" by (simp add: sc min_def)
    then have "scale * bw = 0.92 * real w * z" using pos(1) by simp
    then show ?thesis unfolding bw_def by (rule disjI1)
  next
    case False
    then have "scale = real h * 0.92 / bh * z" by (simp add: sc min_def)
    then have "scale * bh = 0.92 * real h * z" using pos(2) by simp
    then show ?thesis unfolding bh_def by (rule disjI2)
  qed
qed

text \<open>A coordinate inside the box is mapped no further from the centre than 0.46 of the
  canvas times the zoom.\<close>

lemma fit_inside:
  assumes f: "fit w h z (minX, maxX, minY, maxY) = (scale, offX, offY)"
    and x: "minX \<le> mx" "mx \<le> maxX" and y: "minY \<le> my" "my \<le> maxY"
  shows "\<bar>mx * scale + offX - real w / 2\<bar> \<le> 0.46 * real w * \<bar>z\<bar>"
    and "\<bar>my * scale + offY - real h / 2\<bar> \<le> 0.46 * real h * \<bar>z\<bar>"
proof -
  have o: "minX \<le> maxX" "minY \<le> maxY" using x y by simp_all
  have "\<bar>mx - (minX + maxX) / 2\<bar> \<le> (maxX - minX) / 2" using x by (simp add: abs_le_iff field_simps)
  then have "\<bar>mx - (minX + maxX) / 2\<bar> * \<bar>scale\<bar> \<le> (maxX - minX) / 2 * \<bar>scale\<bar>"
    by (rule mult_right_mono) simp
  also have "\<dots> = (\<bar>scale\<bar> * (maxX - minX)) / 2" by simp
  also have "\<dots> \<le> (0.92 * real w * \<bar>z\<bar>) / 2"
    using fit_scale(1)[OF f o] by (simp add: divide_right_mono)
  finally show "\<bar>mx * scale + offX - real w / 2\<bar> \<le> 0.46 * real w * \<bar>z\<bar>"
    by (simp add: fit_centre(1)[OF f] abs_mult)
  have "\<bar>my - (minY + maxY) / 2\<bar> \<le> (maxY - minY) / 2" using y by (simp add: abs_le_iff field_simps)
  then have "\<bar>my - (minY + maxY) / 2\<bar> * \<bar>scale\<bar> \<le> (maxY - minY) / 2 * \<bar>scale\<bar>"
    by (rule mult_right_mono) simp
  also have "\<dots> = (\<bar>scale\<bar> * (maxY - minY)) / 2" by simp
  also have "\<dots> \<le> (0.92 * real h * \<bar>z\<bar>) / 2"
    using fit_scale(2)[OF f o] by (simp add: divide_right_mono)
  finally show "\<bar>my * scale + offY - real h / 2\<bar> \<le> 0.46 * real h * \<bar>z\<bar>"
    by (simp add: fit_centre(2)[OF f] abs_mult)
qed


subsection \<open>Bounds on the curve\<close>

lemma cos_coeff_values:
  "cos_coeff (Suc 0) = 0" "cos_coeff 2 = - 1 / 2" "cos_coeff 3 = 0"
  "cos_coeff 4 = 1 / 24" "cos_coeff 5 = 0"
  by (simp_all add: cos_coeff_def fact_numeral)

lemma cos_1645_neg: "cos (1.645::real) < 0"
proof -
  obtain u :: real where u:
    "cos 1.645 = (\<Sum>m<4. cos_coeff m * 1.645 ^ m) + (cos (u + 1 / 2 * real (4::nat) * pi) / fact 4) * 1.645 ^ 4"
    using Maclaurin_cos_expansion2[of "1.645" 4] by auto
  have set4: "{..<(4::nat)} = {0, 1, 2, 3}" by auto
  have s: "(\<Sum>m<4. cos_coeff m * (1.645::real) ^ m) = 1 - 1.645 ^ 2 / 2"
    by (simp add: set4 cos_coeff_values)
  have "cos (u + 1 / 2 * real (4::nat) * pi) = cos u"
    using cos_periodic[of u] by (simp add: algebra_simps)
  moreover have "cos u \<le> 1" by simp
  ultimately have "cos (u + 1 / 2 * real (4::nat) * pi) / fact 4 * 1.645 ^ 4 \<le> 1 / 24 * (1.645::real) ^ 4"
    by (simp add: fact_numeral)
  then have "cos (1.645::real) \<le> 1 - 1.645 ^ 2 / 2 + 1 / 24 * 1.645 ^ 4"
    unfolding u s by linarith
  also have "\<dots> < 0" by (simp add: power2_eq_square power4_eq_xxxx)
  finally show ?thesis .
qed

lemma pi_less_329: "pi < 3.29"
proof (rule ccontr)
  assume "\<not> pi < 3.29"
  then have "(1.645::real) \<le> pi / 2" by simp
  then have "0 \<le> cos (1.645::real)" by (intro cos_ge_zero) simp_all
  then show False using cos_1645_neg by simp
qed

lemma cos_15_pos: "0 < cos (1.5::real)"
proof -
  obtain u :: real where u:
    "cos 1.5 = (\<Sum>m<6. cos_coeff m * 1.5 ^ m) + (cos (u + 1 / 2 * real (6::nat) * pi) / fact 6) * 1.5 ^ 6"
    using Maclaurin_cos_expansion2[of "1.5" 6] by auto
  have set6: "{..<(6::nat)} = {0, 1, 2, 3, 4, 5}" by auto
  have s: "(\<Sum>m<6. cos_coeff m * (1.5::real) ^ m) = 1 - 1.5 ^ 2 / 2 + 1.5 ^ 4 / 24"
    by (simp add: set6 cos_coeff_values)
  have "cos (u + 1 / 2 * real (6::nat) * pi) = - cos u"
    using cos_periodic_pi[of "u + 2 * pi"] cos_periodic[of u] by (simp add: algebra_simps)
  moreover have "cos u \<le> 1" by simp
  ultimately have "- (1 / 720 * (1.5::real) ^ 6) \<le> cos (u + 1 / 2 * real (6::nat) * pi) / fact 6 * 1.5 ^ 6"
    by (simp add: fact_numeral)
  then have "1 - 1.5 ^ 2 / 2 + 1.5 ^ 4 / 24 - 1 / 720 * (1.5::real) ^ 6 \<le> cos (1.5::real)"
    unfolding u s by linarith
  moreover have "0 < 1 - 1.5 ^ 2 / 2 + 1.5 ^ 4 / 24 - 1 / 720 * (1.5::real) ^ 6"
    by (simp add: eval_nat_numeral)
  ultimately show ?thesis by linarith
qed

lemma pi_gt3: "3 < pi"
proof (rule ccontr)
  assume "\<not> 3 < pi"
  then have "pi / 2 \<le> (1.5::real)" by simp
  moreover have "(1.5::real) \<le> pi" using pi_ge_two by simp
  ultimately have "cos (1.5::real) \<le> cos (pi / 2)"
    by (intro cos_monotone_0_pi_le) simp_all
  then show False using cos_15_pos by simp
qed

lemma sin_pos_range: "0 < c \<Longrightarrow> c < 3 \<Longrightarrow> 0 < sin c" for c :: real
  using pi_gt3 by (intro sin_gt_zero) simp_all

lemma sin_neg_range: "3.29 \<le> c \<Longrightarrow> c < 6 \<Longrightarrow> sin c < 0" for c :: real
  using pi_gt3 pi_less_329 by (intro sin_lt_zero) simp_all

lemma cos_neg_range: "1.645 \<le> c \<Longrightarrow> c \<le> 4.5 \<Longrightarrow> cos c < 0" for c :: real
proof -
  assume c: "1.645 \<le> c" "c \<le> 4.5"
  have "0 < cos (c - pi)"
    using c pi_gt3 pi_less_329 by (intro cos_gt_zero_pi) simp_all
  then show ?thesis by simp
qed

lemma cos_pos_range: "4.935 \<le> c \<Longrightarrow> c \<le> 7.5 \<Longrightarrow> 0 < cos c" for c :: real
proof -
  assume c: "4.935 \<le> c" "c \<le> 7.5"
  have "0 < cos (c - 2 * pi)"
    using c pi_gt3 pi_less_329 by (intro cos_gt_zero_pi) simp_all
  then show ?thesis using cos_periodic[of "c - 2 * pi"] by simp
qed


text \<open>
  The angle \<open>c\<close> of a particle lies within \<open>25/118\<close> above
  \<open>2 + e\<^sup>2/118 + e/99 - t/18\<close>, and both radii \<open>q\<close> and \<open>q + 9 d\<close> are positive:
  the signs of \<open>mx\<close> and \<open>my\<close> are those of \<open>sin c\<close> and \<open>cos c\<close>.
\<close>

lemma orbit_point_form:
  fixes tt xv yv :: real
  defines "e \<equiv> yv / 8 - 13"
  defines "lo \<equiv> 2 + e * e / 118 + e / 99 - tt / 18"
  obtains q d c where "orbit_point tt xv yv = (q * sin c, (q + d * 9) * cos c)"
    and "37 \<le> q" and "4 \<le> d" and "lo \<le> c" and "c \<le> lo + 25 / 118"
proof -
  define k where "k = 5 * cos (xv / 14) * cos (yv / 30)"
  define d where "d = (k * k + e * e) / 59 + 4"
  define q where "q = 60 - 3 * sin (js_atan2 k e * e) + k * (3 + (4 / d) * sin (d * d - tt * 2))"
  define c where "c = d / 2 + e / 99 - tt / 18"
  have op: "orbit_point tt xv yv = (q * sin c, (q + d * 9) * cos c)"
    by (simp add: orbit_point_def Let_def k_def d_def q_def c_def e_def)
  have "\<bar>cos (xv / 14) * cos (yv / 30)\<bar> \<le> 1 * 1"
    unfolding abs_mult by (intro mult_mono) simp_all
  then have ak: "\<bar>k\<bar> \<le> 5" by (simp add: k_def abs_mult)
  then have kk: "0 \<le> k * k" "k * k \<le> 25"
    using abs_le_square_iff[of k 5] by (simp_all add: power2_eq_square)
  have d4: "4 \<le> d" using kk(1) by (simp add: d_def)
  have dlo: "e * e / 59 + 4 \<le> d" using kk(1) by (simp add: d_def divide_right_mono)
  have dhi: "d \<le> (25 + e * e) / 59 + 4" using kk(2) by (simp add: d_def divide_right_mono)
  have "\<bar>(4 / d) * sin (d * d - tt * 2)\<bar> \<le> 1 * 1"
    unfolding abs_mult using d4 by (intro mult_mono) simp_all
  then have "\<bar>3 + (4 / d) * sin (d * d - tt * 2)\<bar> \<le> 4" by linarith
  then have "\<bar>k * (3 + (4 / d) * sin (d * d - tt * 2))\<bar> \<le> 5 * 4"
    unfolding abs_mult using ak by (intro mult_mono) simp_all
  moreover have "sin (js_atan2 k e * e) \<le> 1" by simp
  ultimately have q37: "37 \<le> q" unfolding q_def by linarith
  have "lo \<le> c" "c \<le> lo + 25 / 118"
    using dlo dhi by (simp_all add: c_def lo_def field_simps)
  with op q37 d4 show ?thesis by (rule that)
qed

lemma orbit_point_signs:
  fixes tt xv yv :: real
  defines "e \<equiv> yv / 8 - 13"
  defines "lo \<equiv> 2 + e * e / 118 + e / 99 - tt / 18"
  shows "0 < lo \<Longrightarrow> lo + 25 / 118 < 3 \<Longrightarrow> 0 < fst (orbit_point tt xv yv)"
    and "3.29 \<le> lo \<Longrightarrow> lo + 25 / 118 < 6 \<Longrightarrow> fst (orbit_point tt xv yv) < 0"
    and "1.645 \<le> lo \<Longrightarrow> lo + 25 / 118 \<le> 4.5 \<Longrightarrow> snd (orbit_point tt xv yv) < 0"
    and "4.935 \<le> lo \<Longrightarrow> lo + 25 / 118 \<le> 7.5 \<Longrightarrow> 0 < snd (orbit_point tt xv yv)"
proof -
  obtain q d c where f: "orbit_point tt xv yv = (q * sin c, (q + d * 9) * cos c)"
    and q: "37 \<le> q" and d: "4 \<le> d" and c: "lo \<le> c" "c \<le> lo + 25 / 118"
    using orbit_point_form[of tt xv yv] unfolding lo_def e_def by metis
  have qp: "0 < q" "0 < q + d * 9" using q d by simp_all
  show "0 < lo \<Longrightarrow> lo + 25 / 118 < 3 \<Longrightarrow> 0 < fst (orbit_point tt xv yv)"
    using sin_pos_range[of c] c qp by (simp add: f)
  show "3.29 \<le> lo \<Longrightarrow> lo + 25 / 118 < 6 \<Longrightarrow> fst (orbit_point tt xv yv) < 0"
    using sin_neg_range[of c] c qp by (simp add: f mult_pos_neg)
  show "1.645 \<le> lo \<Longrightarrow> lo + 25 / 118 \<le> 4.5 \<Longrightarrow> snd (orbit_point tt xv yv) < 0"
    using cos_neg_range[of c] c qp by (simp add: f mult_pos_neg)
  show "4.935 \<le> lo \<Longrightarrow> lo + 25 / 118 \<le> 7.5 \<Longrightarrow> 0 < snd (orbit_point tt xv yv)"
    using cos_pos_range[of c] c qp by (simp add: f)
qed


subsection \<open>The fit of a frame\<close>

lemma orbit_mapped_form:
  assumes "orbit_points st \<noteq> []"
  obtains scale offX offY where
    "fit (W st) (H st) z
       (Min (fst ` set (orbit_points st)), Max (fst ` set (orbit_points st)),
        Min (snd ` set (orbit_points st)), Max (snd ` set (orbit_points st))) = (scale, offX, offY)"
    and "orbit_mapped z st =
       map (\<lambda>(mx, my). (mx * scale + offX, my * scale + offY)) (orbit_points st)"
proof -
  obtain mx0 my0 ps where ps: "orbit_points st = (mx0, my0) # ps"
    using assms by (cases "orbit_points st") auto
  have b: "bbox_pass ps (mx0, mx0, my0, my0) =
       (Min (fst ` set (orbit_points st)), Max (fst ` set (orbit_points st)),
        Min (snd ` set (orbit_points st)), Max (snd ` set (orbit_points st)))"
    by (simp add: bbox_pass_Min ps)
  obtain scale offX offY where f: "fit (W st) (H st) z (bbox_pass ps (mx0, mx0, my0, my0)) = (scale, offX, offY)"
    by (cases "fit (W st) (H st) z (bbox_pass ps (mx0, mx0, my0, my0))") auto
  have "orbit_mapped z st =
       map (\<lambda>(mx, my). (mx * scale + offX, my * scale + offY)) (orbit_points st)"
    by (simp add: orbit_mapped_def ps f)
  with f show ?thesis unfolding b by (rule that)
qed

lemma orbit_mapped_bound:
  "list_all (\<lambda>(x, y). \<bar>x - real (W st) / 2\<bar> \<le> 0.46 * real (W st) * \<bar>z\<bar>
                     \<and> \<bar>y - real (H st) / 2\<bar> \<le> 0.46 * real (H st) * \<bar>z\<bar>)
     (orbit_mapped z st)"
proof (cases "orbit_points st = []")
  case True
  then show ?thesis by (simp add: orbit_mapped_def)
next
  case False
  let ?P = "orbit_points st"
  obtain scale offX offY where
    f: "fit (W st) (H st) z (Min (fst ` set ?P), Max (fst ` set ?P), Min (snd ` set ?P), Max (snd ` set ?P))
          = (scale, offX, offY)"
    and m: "orbit_mapped z st = map (\<lambda>(mx, my). (mx * scale + offX, my * scale + offY)) ?P"
    using orbit_mapped_form[OF False] by metis
  have "\<bar>mx * scale + offX - real (W st) / 2\<bar> \<le> 0.46 * real (W st) * \<bar>z\<bar>
        \<and> \<bar>my * scale + offY - real (H st) / 2\<bar> \<le> 0.46 * real (H st) * \<bar>z\<bar>"
    if "(mx, my) \<in> set ?P" for mx my
  proof -
    have "mx \<in> fst ` set ?P" "my \<in> snd ` set ?P" using that by force+
    then have "Min (fst ` set ?P) \<le> mx" "mx \<le> Max (fst ` set ?P)"
      "Min (snd ` set ?P) \<le> my" "my \<le> Max (snd ` set ?P)"
      by simp_all
    then show ?thesis using fit_inside[OF f] by blast
  qed
  then show ?thesis unfolding m by (auto simp: list_all_iff)
qed

lemma tick_keeps:
  "W (tick f now st) = W st" "H (tick f now st) = H st" "N (tick f now st) = N st"
  "xVals (tick f now st) = xVals st" "yVals (tick f now st) = yVals st"
  "zoom (tick f now st) = zoom st" "zoomAuto (tick f now st) = zoomAuto st"
  by (cases f; simp add: emit_def Let_def)+

text \<open>
  Claim C6, as amended. On every frame of the orbit field, for every zoom and auto-zoom
  setting, every mapped coordinate lies no further from the centre of the canvas than
  0.46 of the width (of the height) times the zoom of the frame: the box of the curve is
  fitted to 0.92 of the canvas and then scaled by the zoom. So the whole curve is inside
  the canvas whenever the zoom of the frame is at most \<open>1/0.92\<close>.
\<close>

theorem orbit_frame_bound:
  "list_all (\<lambda>(x, y).
       \<bar>x - real (W st) / 2\<bar>
         \<le> 0.46 * real (W st) * \<bar>zoom_now (amp OrbitField) (hz OrbitField) (tick OrbitField now st)\<bar>
       \<and> \<bar>y - real (H st) / 2\<bar>
         \<le> 0.46 * real (H st) * \<bar>zoom_now (amp OrbitField) (hz OrbitField) (tick OrbitField now st)\<bar>)
     (orbit_frame now st)
   \<and> (0.92 * \<bar>zoom_now (amp OrbitField) (hz OrbitField) (tick OrbitField now st)\<bar> \<le> 1
        \<longrightarrow> framed 0 (W st) (H st) (orbit_frame now st))"
proof (intro conjI impI)
  let ?s = "tick OrbitField now st"
  let ?z = "zoom_now (amp OrbitField) (hz OrbitField) ?s"
  have b: "list_all (\<lambda>(x, y). \<bar>x - real (W st) / 2\<bar> \<le> 0.46 * real (W st) * \<bar>?z\<bar>
                     \<and> \<bar>y - real (H st) / 2\<bar> \<le> 0.46 * real (H st) * \<bar>?z\<bar>) (orbit_frame now st)"
    using orbit_mapped_bound[of ?s ?z] by (simp only: orbit_frame_def Let_def tick_keeps)
  then show "list_all (\<lambda>(x, y). \<bar>x - real (W st) / 2\<bar> \<le> 0.46 * real (W st) * \<bar>?z\<bar>
                     \<and> \<bar>y - real (H st) / 2\<bar> \<le> 0.46 * real (H st) * \<bar>?z\<bar>) (orbit_frame now st)" .
  assume z: "0.92 * \<bar>?z\<bar> \<le> 1"
  have half: "0.46 * real w * \<bar>?z\<bar> \<le> real w / 2" for w :: nat
  proof -
    have "real w * (0.92 * \<bar>?z\<bar>) \<le> real w * 1" using z by (intro mult_left_mono) simp_all
    then show ?thesis by simp
  qed
  have inbox: "0 \<le> x \<and> x \<le> real w" if "\<bar>x - real w / 2\<bar> \<le> 0.46 * real w * \<bar>?z\<bar>" for x and w :: nat
  proof -
    have "\<bar>x - real w / 2\<bar> \<le> real w / 2" using half[of w] that by (rule order_trans[rotated])
    then show ?thesis unfolding abs_le_iff by linarith
  qed
  have "- 0 \<le> x \<and> x \<le> real (W st) + 0 \<and> - 0 \<le> y \<and> y \<le> real (H st) + 0"
    if "(x, y) \<in> set (orbit_frame now st)" for x y
  proof -
    have "\<bar>x - real (W st) / 2\<bar> \<le> 0.46 * real (W st) * \<bar>?z\<bar>
          \<and> \<bar>y - real (H st) / 2\<bar> \<le> 0.46 * real (H st) * \<bar>?z\<bar>"
      using b that unfolding list_all_iff by blast
    then show ?thesis using inbox[of x "W st"] inbox[of y "H st"] by simp
  qed
  then show "framed 0 (W st) (H st) (orbit_frame now st)"
    unfolding framed_def list_all_iff by blast
qed

theorem orbit_frame_bound_witness:
  "0.92 * \<bar>zoom_now (amp OrbitField) (hz OrbitField) (tick OrbitField 16 (orbit_created 1 1 False))\<bar> \<le> 1
   \<and> framed 0 800 600 (orbit_frame 16 (orbit_created 1 1 False))"
proof -
  have z: "zoom_now (amp OrbitField) (hz OrbitField) (tick OrbitField 16 (orbit_created 1 1 False)) = 1"
    by (simp add: zoom_now_def tick_keeps orbit_created_def del: tick.simps)
  have w: "W (orbit_created 1 1 False) = 800" "H (orbit_created 1 1 False) = 600"
    by (simp_all add: orbit_created_def)
  show ?thesis
    using orbit_frame_bound[of "orbit_created 1 1 False" 16] unfolding z w by simp
qed


text \<open>A particle of the frame, by its index.\<close>

lemma orbit_points_member:
  assumes "N st = Num (real n)" and "xVals st = orbit_xs n" and "yVals st = orbit_ys n" and "i < n"
  shows "orbit_point (t st) (real ((i + 1) mod 200)) (real (i + 1) / 43) \<in> set (orbit_points st)"
proof -
  have l: "min (loop_bound (N st)) (min (length (xVals st)) (length (yVals st))) = n"
    using assms(1-3) by (simp add: orbit_xs_def orbit_ys_def)
  have "orbit_point (t st) (xVals st ! i) (yVals st ! i) \<in> set (orbit_points st)"
    unfolding orbit_points_def l using assms(4) by simp
  then show ?thesis using assms(2-4) by (simp add: orbit_xs_def orbit_ys_def)
qed

lemma framed_map_member:
  assumes "framed slack w h (map (\<lambda>(mx, my). (mx * scale + offX, my * scale + offY)) ps)"
    and "(mx, my) \<in> set ps"
  shows "- slack \<le> mx * scale + offX" and "- slack \<le> my * scale + offY"
  using assms unfolding framed_def list_all_iff by force+

text \<open>
  Claim C6 as stated fails once the zoom exceeds \<open>1/0.92\<close>. In the orbit field created
  in an 800 by 600 window with density 0.05 and zoom 4 (the largest value of the host), the
  first frame, 16 ms after creation, maps a particle more than 600 pixels outside the
  canvas: the box is fitted to 0.92 of the canvas and then scaled by the zoom.
\<close>

theorem orbit_zoom_escapes_counterexample:
  "\<not> framed 600 800 600 (orbit_frame 16 (orbit_dense 1 4 False))"
proof
  define s where "s = tick OrbitField 16 (orbit_dense 1 4 False)"
  define P where "P = orbit_points s"
  define tt where "tt = t s"
  assume "framed 600 800 600 (orbit_frame 16 (orbit_dense 1 4 False))"
  then have fr: "framed 600 800 600 (orbit_mapped (zoom_now (amp OrbitField) (hz OrbitField) s) s)"
    unfolding orbit_frame_def Let_def s_def .
  have z: "zoom_now (amp OrbitField) (hz OrbitField) s = 4"
    unfolding s_def by (simp add: zoom_now_def tick_keeps orbit_dense_def del: tick.simps)
  have k: "W s = 800" "H s = 600" "N s = Num (real (24000::nat))"
    "xVals s = orbit_xs 24000" "yVals s = orbit_ys 24000"
    unfolding s_def by (simp_all add: tick_keeps orbit_dense_def del: tick.simps)
  have "tt * 125 = 6 * pi"
    unfolding tt_def s_def tick_fields(1) by (simp add: orbit_dense_def frame_dt_def)
  then have tb: "0 < tt" "tt < 0.16" using pi_less_329 pi_gt3 by linarith+
  have mem: "orbit_point tt (real ((i + 1) mod 200)) (real (i + 1) / 43) \<in> set P" if "i < 24000" for i
    unfolding tt_def P_def using orbit_points_member[OF k(3,4,5) that] .
  define pa where "pa = orbit_point tt (real ((0 + 1) mod 200)) (real (0 + 1) / 43)"
  define pb where "pb = orbit_point tt (real ((4471 + 1) mod 200)) (real (4471 + 1) / 43)"
  define pc where "pc = orbit_point tt (real ((10749 + 1) mod 200)) (real (10749 + 1) / 43)"
  have in_P: "pa \<in> set P" "pb \<in> set P" "pc \<in> set P"
    unfolding pa_def pb_def pc_def by (rule mem, simp)+
  have a1: "fst pa < 0" unfolding pa_def
    by (rule orbit_point_signs(2)) (use tb in simp_all)
  have a2: "snd pa < 0" unfolding pa_def
    by (rule orbit_point_signs(3)) (use tb in simp_all)
  have b1: "0 < fst pb" unfolding pb_def
    by (rule orbit_point_signs(1)) (use tb in simp_all)
  have c2: "0 < snd pc" unfolding pc_def
    by (rule orbit_point_signs(4)) (use tb in simp_all)
  have ne: "P \<noteq> []" using in_P(1) by auto
  have fin: "finite (fst ` set P)" "finite (snd ` set P)" by simp_all
  have nonempty: "fst ` set P \<noteq> {}" "snd ` set P \<noteq> {}" using ne by simp_all
  have "Min (fst ` set P) \<le> fst pa" "fst pb \<le> Max (fst ` set P)"
    "Min (snd ` set P) \<le> snd pa" "snd pc \<le> Max (snd ` set P)"
    using in_P by simp_all
  then have strict: "Min (fst ` set P) < Max (fst ` set P)" "Min (snd ` set P) < Max (snd ` set P)"
    using a1 a2 b1 c2 by linarith+
  obtain scale offX offY where
    f: "fit 800 600 4 (Min (fst ` set P), Max (fst ` set P), Min (snd ` set P), Max (snd ` set P))
          = (scale, offX, offY)"
    and m: "orbit_mapped 4 s = map (\<lambda>(mx, my). (mx * scale + offX, my * scale + offY)) P"
    using orbit_mapped_form[of s 4] ne unfolding k P_def by metis
  have fr': "framed 600 800 600 (map (\<lambda>(mx, my). (mx * scale + offX, my * scale + offY)) P)"
    using fr unfolding z m .
  obtain qx where px: "(Min (fst ` set P), qx) \<in> set P"
    using Min_in[OF fin(1) nonempty(1)] by force
  obtain qy where py: "(qy, Min (snd ` set P)) \<in> set P"
    using Min_in[OF fin(2) nonempty(2)] by force
  have x: "- 600 \<le> Min (fst ` set P) * scale + offX"
    using framed_map_member(1)[OF fr' px] .
  have y: "- 600 \<le> Min (snd ` set P) * scale + offY"
    using framed_map_member(2)[OF fr' py] .
  have cx: "Min (fst ` set P) * scale + offX - real (800::nat) / 2 =
      - (scale * (Max (fst ` set P) - Min (fst ` set P))) / 2"
    unfolding fit_centre(1)[OF f] by (simp add: field_simps)
  have cy: "Min (snd ` set P) * scale + offY - real (600::nat) / 2 =
      - (scale * (Max (snd ` set P) - Min (snd ` set P))) / 2"
    unfolding fit_centre(2)[OF f] by (simp add: field_simps)
  from fit_tight[OF f strict] show False
  proof
    assume "scale * (Max (fst ` set P) - Min (fst ` set P)) = 0.92 * real (800::nat) * 4"
    then show False using cx x by simp
  next
    assume "scale * (Max (snd ` set P) - Min (snd ` set P)) = 0.92 * real (600::nat) * 4"
    then show False using cy y by simp
  qed
qed


text \<open>What is drawn is inside the canvas, whatever the zoom: the second pass skips the rest.\<close>

lemma orbit_drawn_inside:
  "(x, y) \<in> set (orbit_drawn now st) \<Longrightarrow> 0 \<le> x \<and> x < real (W st) \<and> 0 \<le> y \<and> y < real (H st)"
  by (simp add: orbit_drawn_def)


end
